theory Spec2Isabelle
  imports Complex_Main "HOL-Library.Char_ord" "HOL-Library.List_Lexorder"
begin

section \<open>Values, errors and the object store\<close>

text \<open>
  The repository is three Jupyter notebooks (geometric mechanism, Laplace mechanism,
  privacy/quality tradeoff). Their code cells are straight-line Python over pandas
  data frames and numpy arrays. The embedding follows the cells statement by statement.

  Numbers: integer frames (\<open>int64\<close>) are lists of rows of \<open>int\<close>, and the sum of the
  true table and the integer noise wraps around at the 64-bit bounds. The calibration,
  the grid of epsilon values and the simulation are computed in float64, with its
  rounding, underflow and overflow. In the Laplace cells and in the relative error a
  finite float is the exact real result; the IEEE special values that numpy's division
  produces on a zero divisor are constructors of \<open>npfloat\<close>.
\<close>

datatype error = ZeroDivisionError | ValueError | NameError

datatype npfloat = Finite real | PosInf | NegInf | NaN

definition bind_err :: "error + 'a \<Rightarrow> ('a \<Rightarrow> error + 'b) \<Rightarrow> error + 'b" where
  "bind_err m f = (case m of Inl e \<Rightarrow> Inl e | Inr v \<Rightarrow> f v)"

text \<open>
  Python names are bound to objects, and a data frame is a mutable object: two names
  bound to the same frame see each other's in-place updates. The store maps references
  to the current value of each object; \<open>new_obj\<close> is what an expression that builds a
  new frame does, \<open>store_obj\<close> is an in-place update through a reference.
\<close>

type_synonym ref = nat

record 'a heap =
  objs :: "ref \<rightharpoonup> 'a"
  next_ref :: ref

definition empty_heap :: "'a heap" where
  "empty_heap = \<lparr>objs = Map.empty, next_ref = 0\<rparr>"

definition new_obj :: "'a \<Rightarrow> 'a heap \<Rightarrow> ref \<times> 'a heap" where
  "new_obj v h = (next_ref h, \<lparr>objs = (objs h)(next_ref h \<mapsto> v), next_ref = Suc (next_ref h)\<rparr>)"

definition load :: "'a heap \<Rightarrow> ref \<Rightarrow> error + 'a" where
  "load h r = (case objs h r of None \<Rightarrow> Inl NameError | Some v \<Rightarrow> Inr v)"

definition store_obj :: "'a heap \<Rightarrow> ref \<Rightarrow> 'a \<Rightarrow> 'a heap" where
  "store_obj h r v = h\<lparr>objs := (objs h)(r \<mapsto> v)\<rparr>"

section \<open>Float64 arithmetic\<close>

text \<open>
  A finite float64 value is the real number it stands for. \<open>fl x\<close> is the float64
  nearest to the real \<open>x\<close>: the significand has 53 bits (the spacing of the floats
  around \<open>x\<close> is \<open>ulp x\<close>, which is \<open>2^-1074\<close> in the subnormal range), a tie goes to the
  even significand, and a result of magnitude \<open>2^1024\<close> or more is an infinity. The sign
  of a zero is not kept.

  \<open>np_round\<close> is rounding to the nearest integer with ties to the even one; it is
  also what \<^verbatim>\<open>DataFrame.round()\<close> does.
\<close>

definition np_round :: "real \<Rightarrow> real" where
  "np_round x =
     (let f = \<lfloor>x\<rfloor>; d = x - of_int f in
      if d < 1 / 2 then of_int f
      else if 1 / 2 < d then of_int (f + 1)
      else if even f then of_int f else of_int (f + 1))"

definition binade :: "real \<Rightarrow> int" where
  "binade x = (if x = 0 then - 1022 else max \<lfloor>log 2 \<bar>x\<bar>\<rfloor> (- 1022))"

definition ulp :: "real \<Rightarrow> real" where
  "ulp x = 2 powr (real_of_int (binade x) - 52)"

definition flr :: "real \<Rightarrow> real" where
  "flr x = np_round (x / ulp x) * ulp x"

definition fl :: "real \<Rightarrow> npfloat" where
  "fl x = (let y = flr x in
           if 2 ^ 1024 \<le> y then PosInf else if y \<le> - (2 ^ 1024) then NegInf else Finite y)"

text \<open>
  The operations of float64 with the IEEE results for infinities and \<open>nan\<close>. numpy
  divides by zero without an exception. \<open>exp\<close>, \<open>log10\<close> and the power \<open>10**x\<close> come from
  the C library; they are taken as correctly rounded (the library's result can differ
  in the last bit).
\<close>

fun np_neg :: "npfloat \<Rightarrow> npfloat" where
  "np_neg (Finite x) = Finite (- x)"
| "np_neg PosInf = NegInf"
| "np_neg NegInf = PosInf"
| "np_neg NaN = NaN"

fun np_abs :: "npfloat \<Rightarrow> npfloat" where
  "np_abs (Finite x) = Finite \<bar>x\<bar>"
| "np_abs PosInf = PosInf"
| "np_abs NegInf = PosInf"
| "np_abs NaN = NaN"

fun np_add :: "npfloat \<Rightarrow> npfloat \<Rightarrow> npfloat" where
  "np_add NaN b = NaN"
| "np_add a NaN = NaN"
| "np_add (Finite x) (Finite y) = fl (x + y)"
| "np_add PosInf NegInf = NaN"
| "np_add NegInf PosInf = NaN"
| "np_add PosInf b = PosInf"
| "np_add a PosInf = PosInf"
| "np_add NegInf b = NegInf"
| "np_add a NegInf = NegInf"

definition np_sub :: "npfloat \<Rightarrow> npfloat \<Rightarrow> npfloat" where
  "np_sub a b = np_add a (np_neg b)"

fun np_sign_inf :: "bool \<Rightarrow> npfloat" where
  "np_sign_inf True = PosInf"
| "np_sign_inf False = NegInf"

fun np_mul :: "npfloat \<Rightarrow> npfloat \<Rightarrow> npfloat" where
  "np_mul NaN b = NaN"
| "np_mul a NaN = NaN"
| "np_mul (Finite x) (Finite y) = fl (x * y)"
| "np_mul (Finite x) PosInf = (if x = 0 then NaN else np_sign_inf (0 < x))"
| "np_mul (Finite x) NegInf = (if x = 0 then NaN else np_sign_inf (x < 0))"
| "np_mul PosInf (Finite y) = (if y = 0 then NaN else np_sign_inf (0 < y))"
| "np_mul NegInf (Finite y) = (if y = 0 then NaN else np_sign_inf (y < 0))"
| "np_mul PosInf PosInf = PosInf"
| "np_mul NegInf NegInf = PosInf"
| "np_mul PosInf NegInf = NegInf"
| "np_mul NegInf PosInf = NegInf"

fun np_div :: "npfloat \<Rightarrow> npfloat \<Rightarrow> npfloat" where
  "np_div NaN b = NaN"
| "np_div a NaN = NaN"
| "np_div (Finite x) (Finite y) =
     (if y = 0 then (if x = 0 then NaN else np_sign_inf (0 < x)) else fl (x / y))"
| "np_div (Finite x) PosInf = Finite 0"
| "np_div (Finite x) NegInf = Finite 0"
| "np_div PosInf (Finite y) = np_sign_inf (0 \<le> y)"
| "np_div NegInf (Finite y) = np_sign_inf (y < 0)"
| "np_div PosInf PosInf = NaN"
| "np_div PosInf NegInf = NaN"
| "np_div NegInf PosInf = NaN"
| "np_div NegInf NegInf = NaN"

fun np_exp :: "npfloat \<Rightarrow> npfloat" where
  "np_exp (Finite x) = fl (exp x)"
| "np_exp PosInf = PosInf"
| "np_exp NegInf = Finite 0"
| "np_exp NaN = NaN"

fun np_log10 :: "npfloat \<Rightarrow> npfloat" where
  "np_log10 (Finite x) = (if 0 < x then fl (log 10 x) else if x = 0 then NegInf else NaN)"
| "np_log10 PosInf = PosInf"
| "np_log10 NegInf = NaN"
| "np_log10 NaN = NaN"

fun np_power10 :: "npfloat \<Rightarrow> npfloat" where
  "np_power10 (Finite x) = fl (10 powr x)"
| "np_power10 PosInf = PosInf"
| "np_power10 NegInf = Finite 0"
| "np_power10 NaN = NaN"

fun np_negative :: "npfloat \<Rightarrow> bool" where
  "np_negative (Finite x) = (x < 0)"
| "np_negative NegInf = True"
| "np_negative PosInf = False"
| "np_negative NaN = False"

text \<open>
  Integer frames hold \<open>int64\<close> values: a sum outside the range wraps around.
\<close>

definition wrap64 :: "int \<Rightarrow> int" where
  "wrap64 z = (z + 2 ^ 63) mod 2 ^ 64 - 2 ^ 63"

section \<open>Frames and element-wise operations\<close>

type_synonym 'a frame = "'a list list"

definition same_shape :: "'a frame \<Rightarrow> 'b frame \<Rightarrow> bool" where
  "same_shape a b = (map length a = map length b)"

text \<open>
  Element-wise binary operations of pandas and numpy on two operands of one shape.
  In the notebooks the second operand always has the first one's shape (the noise is
  drawn with \<open>truetab.shape\<close>); operands of different shapes are rejected with
  \<open>ValueError\<close>, numpy's error for shapes that do not fit. Broadcasting of a smaller
  array is not modelled.
\<close>

definition frame_map2 :: "('a \<Rightarrow> 'b \<Rightarrow> 'c) \<Rightarrow> 'a frame \<Rightarrow> 'b frame \<Rightarrow> error + 'c frame" where
  "frame_map2 f a b = (if same_shape a b then Inr (map2 (map2 f) a b) else Inl ValueError)"

text \<open>\<^verbatim>\<open>a + b\<close> on two integer frames: the \<open>int64\<close> sum, which wraps around.\<close>

definition frame_add :: "int frame \<Rightarrow> int frame \<Rightarrow> error + int frame" where
  "frame_add a b = frame_map2 (\<lambda>x y. wrap64 (x + y)) a b"

text \<open>\<^verbatim>\<open>np.abs(a - b)\<close> on two integer frames.\<close>

definition abs_diff :: "int frame \<Rightarrow> int frame \<Rightarrow> error + int frame" where
  "abs_diff a b = frame_map2 (\<lambda>x y. \<bar>x - y\<bar>) a b"

text \<open>
  \<^verbatim>\<open>t[t < 0] = 0\<close>: the cells selected by the mask are overwritten with 0, the
  others keep their value.
\<close>

definition clamp_negative :: "('a::{zero,ord}) frame \<Rightarrow> 'a frame" where
  "clamp_negative t = map (map (\<lambda>x. if x < 0 then 0 else x)) t"

text \<open>The same statement on a frame in the store: the object is updated in place.\<close>

definition clamp_in_place :: "('a::{zero,ord}) frame heap \<Rightarrow> ref \<Rightarrow> error + 'a frame heap" where
  "clamp_in_place h r = bind_err (load h r) (\<lambda>v. Inr (store_obj h r (clamp_negative v)))"

text \<open>
  True division of two integers as numpy and pandas compute it: the result is a float,
  and a zero divisor gives \<open>inf\<close>, \<open>-inf\<close> or \<open>nan\<close> (with a warning at most), never an
  exception.
\<close>

definition true_divide :: "int \<Rightarrow> int \<Rightarrow> npfloat" where
  "true_divide a b =
     (if b \<noteq> 0 then Finite (real_of_int a / real_of_int b)
      else if 0 < a then PosInf
      else if a < 0 then NegInf
      else NaN)"

text \<open>\<^verbatim>\<open>errortab/truetab\<close>.\<close>

definition frame_divide :: "int frame \<Rightarrow> int frame \<Rightarrow> error + npfloat frame" where
  "frame_divide a b = frame_map2 true_divide a b"

text \<open>
  \<^verbatim>\<open>t.sum().sum()\<close>: the first \<open>sum\<close> adds up each column, the second adds the
  column sums.
\<close>

definition column_sums :: "int frame \<Rightarrow> int list" where
  "column_sums t = map sum_list (transpose t)"

definition sum_sum :: "int frame \<Rightarrow> int" where
  "sum_sum t = sum_list (column_sums t)"

section \<open>The geometric notebook\<close>

text \<open>
  The cell that makes the noisy table and measures the error:
  \<^verbatim>\<open>
  noisytab=truetab+noise
  noisytabpost=noisytab
  noisytabpost[noisytabpost < 0]=0
  errortab=np.abs(noisytabpost-truetab)
  pcterrortab=errortab/truetab
  errorsum=errortab.sum().sum()
  truesum=truetab.sum().sum()
  errorrel=100*errorsum/truesum
  \<close>
  \<open>truetab\<close> and \<open>noise\<close> come from earlier cells. The state after the cell holds the
  store of integer frames, the reference each name is bound to, and the values that
  are never updated in place.
\<close>

record geo_state =
  frames :: "int frame heap"
  truetab :: ref
  noisytab :: ref
  noisytabpost :: ref
  errortab :: ref
  pcterrortab :: "npfloat frame"
  errorsum :: int
  truesum :: int
  errorrel :: npfloat

definition geometric_cell :: "int frame \<Rightarrow> int frame \<Rightarrow> error + geo_state" where
  "geometric_cell truetab_v noise =
     (let (r_true, h0) = new_obj truetab_v empty_heap in
      bind_err (load h0 r_true) (\<lambda>t0.
      bind_err (frame_add t0 noise) (\<lambda>s.
      let (r_noisy, h1) = new_obj s h0;
          r_post = r_noisy in
      bind_err (clamp_in_place h1 r_post) (\<lambda>h2.
      bind_err (load h2 r_post) (\<lambda>p1.
      bind_err (load h2 r_true) (\<lambda>t1.
      bind_err (abs_diff p1 t1) (\<lambda>e.
      let (r_err, h3) = new_obj e h2 in
      bind_err (load h3 r_err) (\<lambda>e1.
      bind_err (load h3 r_true) (\<lambda>t2.
      bind_err (frame_divide e1 t2) (\<lambda>pct.
      bind_err (load h3 r_err) (\<lambda>e2.
      bind_err (load h3 r_true) (\<lambda>t3.
      Inr \<lparr>frames = h3, truetab = r_true, noisytab = r_noisy, noisytabpost = r_post,
           errortab = r_err, pcterrortab = pct, errorsum = sum_sum e2,
           truesum = sum_sum t3,
           errorrel = true_divide (100 * sum_sum e2) (sum_sum t3)\<rparr>))))))))))))"

text \<open>The frame a name is bound to in the final state.\<close>

definition frame_of :: "geo_state \<Rightarrow> (geo_state \<Rightarrow> ref) \<Rightarrow> int frame option" where
  "frame_of st name = objs (frames st) (name st)"

section \<open>The Laplace notebook\<close>

text \<open>
  \<^verbatim>\<open>DataFrame.round()\<close> rounds half to even (\<open>np_round\<close>) and keeps the float type;
  \<^verbatim>\<open>astype(np.int)\<close> then converts to integers by dropping the fraction.
\<close>

definition astype_int :: "real \<Rightarrow> int" where
  "astype_int x = (if 0 \<le> x then \<lfloor>x\<rfloor> else \<lceil>x\<rceil>)"

definition round_astype_int :: "real frame \<Rightarrow> int frame" where
  "round_astype_int t = map (map (\<lambda>x. astype_int (np_round x))) t"

text \<open>\<^verbatim>\<open>truetab+noise\<close> with an integer frame and a float array: a float frame.\<close>

definition frame_add_float :: "int frame \<Rightarrow> real frame \<Rightarrow> error + real frame" where
  "frame_add_float a b = frame_map2 (\<lambda>x y. real_of_int x + y) a b"

text \<open>
  The two cells that make the noisy table and measure the error:
  \<^verbatim>\<open>
  noisytab=truetab+noise
  noisytabpost=noisytab.round().astype(np.int)
  noisytabpost[noisytabpost < 0]=0
  errortab=np.abs(noisytabpost-truetab)
  pcterrortab=errortab/truetab
  errorsum=errortab.sum().sum()
  truesum=truetab.sum().sum()
  errorrel=100*errorsum/truesum
  \<close>
  Float frames and integer frames live in two stores; \<open>round\<close> and \<open>astype\<close> each
  build a new frame.
\<close>

record lap_state =
  lap_floats :: "real frame heap"
  lap_ints :: "int frame heap"
  lap_truetab :: ref
  lap_noisytab :: ref
  lap_noisytabpost :: ref
  lap_errortab :: ref
  lap_pcterrortab :: "npfloat frame"
  lap_errorsum :: int
  lap_truesum :: int
  lap_errorrel :: npfloat

definition laplace_cells :: "int frame \<Rightarrow> real frame \<Rightarrow> error + lap_state" where
  "laplace_cells truetab_v noise =
     (let (r_true, i0) = new_obj truetab_v empty_heap in
      bind_err (load i0 r_true) (\<lambda>t0.
      bind_err (frame_add_float t0 noise) (\<lambda>s.
      let (r_noisy, f1) = new_obj s empty_heap in
      bind_err (load f1 r_noisy) (\<lambda>n0.
      let (r_post, i1) = new_obj (round_astype_int n0) i0 in
      bind_err (clamp_in_place i1 r_post) (\<lambda>i2.
      bind_err (load i2 r_post) (\<lambda>p1.
      bind_err (load i2 r_true) (\<lambda>t1.
      bind_err (abs_diff p1 t1) (\<lambda>e.
      let (r_err, i3) = new_obj e i2 in
      bind_err (load i3 r_err) (\<lambda>e1.
      bind_err (load i3 r_true) (\<lambda>t2.
      bind_err (frame_divide e1 t2) (\<lambda>pct.
      bind_err (load i3 r_err) (\<lambda>e2.
      bind_err (load i3 r_true) (\<lambda>t3.
      Inr \<lparr>lap_floats = f1, lap_ints = i3, lap_truetab = r_true, lap_noisytab = r_noisy,
           lap_noisytabpost = r_post, lap_errortab = r_err, lap_pcterrortab = pct,
           lap_errorsum = sum_sum e2, lap_truesum = sum_sum t3,
           lap_errorrel = true_divide (100 * sum_sum e2) (sum_sum t3)\<rparr>)))))))))))))"

definition lap_int_frame_of :: "lap_state \<Rightarrow> (lap_state \<Rightarrow> ref) \<Rightarrow> int frame option" where
  "lap_int_frame_of st name = objs (lap_ints st) (name st)"

definition lap_float_frame_of :: "lap_state \<Rightarrow> (lap_state \<Rightarrow> ref) \<Rightarrow> real frame option" where
  "lap_float_frame_of st name = objs (lap_floats st) (name st)"

text \<open>
  The post-processing policy on its own, for a table that is published again: the
  Laplace notebook's statements applied to a frame of floats, and the conversion of a
  published integer table back to the floats it holds.
\<close>

definition laplace_postprocess :: "real frame \<Rightarrow> int frame" where
  "laplace_postprocess t = clamp_negative (round_astype_int t)"

definition as_float :: "int frame \<Rightarrow> real frame" where
  "as_float t = map (map real_of_int) t"

section \<open>Calibration\<close>

text \<open>
  \<^verbatim>\<open>scale=sensitivity/epsilon\<close> and \<^verbatim>\<open>probability=1-np.exp(-epsilon/sensitivity)\<close>
  divide Python floats: a zero divisor raises \<open>ZeroDivisionError\<close>, and the quotient is
  rounded to float64 (it can underflow to zero or overflow to an infinity, without an
  exception). No other check is made on the two parameters. The parameters are the
  real numbers that the two float64 arguments stand for.
\<close>

definition py_truediv :: "real \<Rightarrow> real \<Rightarrow> error + npfloat" where
  "py_truediv a b = (if b = 0 then Inl ZeroDivisionError else Inr (fl (a / b)))"

definition scale :: "real \<Rightarrow> real \<Rightarrow> error + npfloat" where
  "scale sensitivity epsilon = py_truediv sensitivity epsilon"

definition probability :: "real \<Rightarrow> real \<Rightarrow> error + npfloat" where
  "probability sensitivity epsilon =
     bind_err (py_truediv (- epsilon) sensitivity) (\<lambda>q. Inr (np_sub (Finite 1) (np_exp q)))"

text \<open>
  \<^verbatim>\<open>noise = np.random.geometric(probability,truetab.shape)-np.random.geometric(probability,truetab.shape)\<close>:
  the two arrays of draws are the generator's output and are parameters here. A draw
  is at least 1, so the difference of two draws is inside the \<open>int64\<close> range.
\<close>

definition geometric_noise :: "int frame \<Rightarrow> int frame \<Rightarrow> error + int frame" where
  "geometric_noise draws1 draws2 = frame_map2 (\<lambda>x y. x - y) draws1 draws2"

section \<open>The true table\<close>

text \<open>
  \<^verbatim>\<open>
  truetab=pd.crosstab(index=myrecs['Occupation'], columns=myrecs['Sex'])
  truetab=truetab.reindex(index=occvalid, columns=sexvalid, fill_value=0)
  \<close>
  \<open>crosstab\<close> counts, for every row label and column label that occurs in the records,
  the records that carry both; its labels are the sorted distinct values. \<open>reindex\<close>
  lays the frame out along the given labels and fills the cells of labels that the
  frame does not have. (The labels of a cross-tabulation are distinct, so the error of
  \<open>reindex\<close> on a duplicated axis cannot arise.)
\<close>

record myrec =
  Sex :: string
  Age :: int
  Married :: string
  Earnings :: int
  Occupation :: string

record labelled =
  index_labels :: "string list"
  column_labels :: "string list"
  cells :: "int frame"

definition crosstab :: "string list \<Rightarrow> string list \<Rightarrow> labelled" where
  "crosstab index columns =
     (let rows = sort (remdups index); cols = sort (remdups columns) in
      \<lparr>index_labels = rows, column_labels = cols,
       cells = map (\<lambda>r. map (\<lambda>c. int (length (filter (\<lambda>p. p = (r, c)) (zip index columns)))) cols) rows\<rparr>)"

fun position :: "'a \<Rightarrow> 'a list \<Rightarrow> nat option" where
  "position x [] = None"
| "position x (y # ys) = (if x = y then Some 0 else map_option Suc (position x ys))"

fun nth_opt :: "'a list \<Rightarrow> nat \<Rightarrow> 'a option" where
  "nth_opt [] n = None"
| "nth_opt (x # xs) 0 = Some x"
| "nth_opt (x # xs) (Suc n) = nth_opt xs n"

definition cell_at :: "labelled \<Rightarrow> string \<Rightarrow> string \<Rightarrow> int option" where
  "cell_at df r c =
     (case (position r (index_labels df), position c (column_labels df)) of
        (Some i, Some j) \<Rightarrow>
          (case nth_opt (cells df) i of None \<Rightarrow> None | Some row \<Rightarrow> nth_opt row j)
      | _ \<Rightarrow> None)"

definition reindex :: "labelled \<Rightarrow> string list \<Rightarrow> string list \<Rightarrow> int \<Rightarrow> labelled" where
  "reindex df index columns fill_value =
     \<lparr>index_labels = index, column_labels = columns,
      cells = map (\<lambda>r. map (\<lambda>c. case cell_at df r c of None \<Rightarrow> fill_value | Some v \<Rightarrow> v) columns) index\<rparr>"

definition make_truetab :: "myrec list \<Rightarrow> string list \<Rightarrow> string list \<Rightarrow> int frame" where
  "make_truetab myrecs occvalid sexvalid =
     cells (reindex (crosstab (map Occupation myrecs) (map Sex myrecs)) occvalid sexvalid 0)"

section \<open>The tradeoff notebook\<close>

text \<open>
  \<^verbatim>\<open>
  epsset=[10**x for x in np.arange(np.log10(epsmin),
            np.log10(epsmax)+(np.log10(epsmax)-np.log10(epsmin))/epscnt,
            (np.log10(epsmax)-np.log10(epsmin))/epscnt)]
  \<close>
  \<open>np.arange(start, stop, step)\<close> computes its length as the ceiling of the float64
  quotient \<open>(stop - start)/step\<close>. Its first element is \<open>start\<close>, its second is
  \<open>next = start + step\<close>, and element \<open>i\<close> from the third on is \<open>start + i*delta\<close> with
  \<open>delta = next - start\<close>, each operation rounded to float64. A quotient that is not a
  finite number (from the logarithm of a parameter that is not positive, a division by
  \<open>epscnt = 0\<close>, or a zero step) or that is too large for a length makes \<open>arange\<close>
  raise; the kind of the exception is not distinguished.
\<close>

definition arange :: "npfloat \<Rightarrow> npfloat \<Rightarrow> npfloat \<Rightarrow> error + npfloat list" where
  "arange start stop step =
     (case np_div (np_sub stop start) step of
        Finite v \<Rightarrow>
          if 2 ^ 63 \<le> \<bar>v\<bar> then Inl ValueError
          else
            (let len = nat \<lceil>v\<rceil>;
                 next = np_add start step;
                 delta = np_sub next start
             in Inr (take len ([start, next] @
                   map (\<lambda>i. np_add start (np_mul (Finite (real i)) delta)) [2..<len])))
      | _ \<Rightarrow> Inl ValueError)"

definition epsset :: "real \<Rightarrow> real \<Rightarrow> int \<Rightarrow> error + npfloat list" where
  "epsset epsmin epsmax epscnt =
     (let a = np_log10 (Finite epsmin);
          b = np_log10 (Finite epsmax);
          d = np_div (np_sub b a) (fl (real_of_int epscnt))
      in bind_err (arange a (np_add b d) d) (\<lambda>xs. Inr (map np_power10 xs)))"

text \<open>The float64 value of the literal \<^verbatim>\<open>0.1\<close>, the notebook's \<open>epsmin\<close>.\<close>

definition float_0_1 :: real where
  "float_0_1 = 3602879701896397 / 36028797018963968"

text \<open>
  \<^verbatim>\<open>
  epsilon = pd.Series(epsset).repeat(numrecs)
  df=pd.DataFrame({'epsilon' : epsilon,'sensitivity' : sensitivity, 'scale' : sensitivity/epsilon})
  df['noise'] = np.random.laplace(loc=0,scale=df['scale'])
  df['L1error'] = np.abs(df['noise'])
  \<close>
  The generator is a parameter: \<open>laplace k b\<close> is the variate it returns for row \<open>k\<close>
  at scale \<open>b\<close>. It refuses a negative scale with \<open>ValueError\<close>, as \<open>repeat\<close> refuses a
  negative count.
\<close>

record df_row =
  df_epsilon :: npfloat
  df_sensitivity :: real
  df_scale :: npfloat
  df_noise :: npfloat
  df_L1error :: npfloat

definition repeat :: "'a list \<Rightarrow> int \<Rightarrow> error + 'a list" where
  "repeat xs n = (if n < 0 then Inl ValueError else Inr (concat (map (replicate (nat n)) xs)))"

definition simulate :: "real \<Rightarrow> real \<Rightarrow> int \<Rightarrow> real \<Rightarrow> int \<Rightarrow> (nat \<Rightarrow> npfloat \<Rightarrow> npfloat) \<Rightarrow> error + df_row list" where
  "simulate epsmin epsmax epscnt sensitivity numrecs laplace =
     bind_err (epsset epsmin epsmax epscnt) (\<lambda>es.
     bind_err (repeat es numrecs) (\<lambda>epsilon.
     let scales = map (\<lambda>e. np_div (Finite sensitivity) e) epsilon in
     if list_ex np_negative scales then Inl ValueError
     else Inr (map (\<lambda>(k, e).
            let noise = laplace k (np_div (Finite sensitivity) e) in
            \<lparr>df_epsilon = e, df_sensitivity = sensitivity,
             df_scale = np_div (Finite sensitivity) e,
             df_noise = noise, df_L1error = np_abs noise\<rparr>)
          (zip [0..<length epsilon] epsilon))))"

text \<open>
  The array that \<open>arange\<close> returns for the notebook's parameters \<open>epsmin = 0.1\<close>,
  \<open>epsmax = 10.\<close>, \<open>epscnt = 20\<close> (lemma \<open>arange_20\<close>): the first element is the start
  \<open>-1\<close>, the second is \<open>next = start + step\<close>, and element \<open>i\<close> from the third on is
  \<open>start + i*delta\<close>, where \<open>delta = next - start\<close> is \<open>900719925474099 / 2^53\<close>.
\<close>

definition grid20 :: "npfloat list" where
  "grid20 = take 21 ([Finite (- 1), Finite (- (8106479329266893 / 9007199254740992))] @
     map (\<lambda>i. np_add (Finite (- 1)) (np_mul (Finite (real i)) (Finite (900719925474099 / 9007199254740992))))
       [2..<21])"

section \<open>Shapes, sums and what the cells compute\<close>

lemma same_shape_length: "same_shape a b \<Longrightarrow> length a = length b"
  unfolding same_shape_def by (metis length_map)

lemma same_shape_nth: "same_shape a b \<Longrightarrow> i < length a \<Longrightarrow> length (a ! i) = length (b ! i)"
  unfolding same_shape_def by (metis length_map nth_map)

lemma same_shape_map2: "same_shape a b \<Longrightarrow> same_shape (map2 (map2 f) a b) b"
  unfolding same_shape_def
  by (induction a arbitrary: b) (auto simp: Suc_length_conv dest!: sym[of "_ # _"])

lemma same_shape_map2_left: "same_shape a b \<Longrightarrow> same_shape (map2 (map2 f) a b) a"
  unfolding same_shape_def
  by (induction a arbitrary: b) (auto simp: Suc_length_conv dest!: sym[of "_ # _"])

lemma same_shape_clamp: "same_shape (clamp_negative a) b = same_shape a b"
  by (simp add: same_shape_def clamp_negative_def comp_def)

lemma nth_map2_map2:
  "same_shape a b \<Longrightarrow> i < length a \<Longrightarrow> j < length (a ! i) \<Longrightarrow>
   map2 (map2 f) a b ! i ! j = f (a ! i ! j) (b ! i ! j)"
  using same_shape_length[of a b] same_shape_nth[of a b i] by simp

lemma sum_heads_tails:
  "sum_list (map sum_list xss) =
   sum_list [h. (h # t) \<leftarrow> xss] + sum_list (map sum_list [t. (h # t) \<leftarrow> xss])"
  for xss :: "int list list"
  by (induction xss) (auto split: list.splits)

text \<open>Adding up the column sums is adding up all cells, row by row.\<close>

lemma sum_sum_rows: "sum_sum t = sum_list (map sum_list t)"
  unfolding sum_sum_def column_sums_def
proof (induction t rule: transpose.induct)
  case 1
  show ?case by simp
next
  case (2 xss)
  then show ?case by simp
next
  case (3 x xs xss)
  then show ?case using sum_heads_tails[of xss] by simp
qed

text \<open>
  The final state of the geometric cell, in closed form. The names \<open>noisytab\<close> and
  \<open>noisytabpost\<close> are bound to one object, which holds the clamped table.
\<close>

lemma geometric_cell_eq:
  "geometric_cell t n =
     (if same_shape t n then
        (let pub = clamp_negative (map2 (map2 (\<lambda>x y. wrap64 (x + y))) t n);
             err = map2 (map2 (\<lambda>x y. \<bar>x - y\<bar>)) pub t in
         Inr \<lparr>frames = \<lparr>objs = [0 \<mapsto> t, Suc 0 \<mapsto> pub, 2 \<mapsto> err], next_ref = 3\<rparr>,
              truetab = 0, noisytab = Suc 0, noisytabpost = Suc 0, errortab = 2,
              pcterrortab = map2 (map2 true_divide) err t,
              errorsum = sum_sum err, truesum = sum_sum t,
              errorrel = true_divide (100 * sum_sum err) (sum_sum t)\<rparr>)
      else Inl ValueError)"
proof (cases "same_shape t n")
  case False
  then show ?thesis
    by (simp add: geometric_cell_def new_obj_def empty_heap_def load_def bind_err_def
        frame_add_def frame_map2_def)
next
  case True
  have s1: "same_shape (clamp_negative (map2 (map2 (\<lambda>x y. wrap64 (x + y))) t n)) t"
    using True by (simp add: same_shape_clamp same_shape_map2_left)
  have s2: "same_shape (map2 (map2 (\<lambda>x y. \<bar>x - y\<bar>)) (clamp_negative (map2 (map2 (\<lambda>x y. wrap64 (x + y))) t n)) t) t"
    using s1 by (rule same_shape_map2)
  show ?thesis using True s1 s2
    by (simp add: geometric_cell_def new_obj_def empty_heap_def load_def bind_err_def
        frame_add_def frame_map2_def store_obj_def abs_diff_def frame_divide_def Let_def
        clamp_in_place_def numeral_3_eq_3 numeral_2_eq_2)
qed

section \<open>The worked example of the geometric notebook\<close>

text \<open>
  C1. With the true table \<open>[[18,19],[13,16],[10,10],[8,5],[0,1]]\<close> and the noise
  \<open>[[0,-1],[-3,1],[-1,-2],[3,-3],[0,0]]\<close>, the geometric cell (add the noise cell by
  cell, set negative cells to zero, no rounding) publishes
  \<open>[[18,18],[10,17],[9,8],[11,2],[0,1]]\<close>; the cell-wise absolute errors are the
  absolute values of the noise, and the total L1 error, their sum over all cells, is 14.
\<close>

theorem scenario1_published_and_L1:
  "\<exists>st. geometric_cell [[18,19],[13,16],[10,10],[8,5],[0,1]]
                        [[0,-1],[-3,1],[-1,-2],[3,-3],[0,0]] = Inr st
     \<and> frame_of st noisytabpost = Some [[18,18],[10,17],[9,8],[11,2],[0,1]]
     \<and> frame_of st errortab = Some [[0,1],[3,1],[1,2],[3,3],[0,0]]
     \<and> errorsum st = 14"
  by (simp add: geometric_cell_def new_obj_def empty_heap_def load_def bind_err_def
      frame_add_def wrap64_def frame_map2_def same_shape_def store_obj_def clamp_negative_def
      clamp_in_place_def abs_diff_def frame_divide_def frame_of_def sum_sum_def column_sums_def)

section \<open>Rounding to float64\<close>

text \<open>
  Rounding to the nearest integer is off by at most one half, and rounding to float64
  by at most half the spacing of the floats at the argument. A real number whose
  multiple by a power of two lies between \<open>2^52\<close> and \<open>2^53\<close> is rounded at that scale
  (\<open>flr_scaled\<close>), which evaluates \<open>fl\<close> at a given number.
\<close>

lemma np_round_of_int: "np_round (of_int k) = of_int k"
  by (simp add: np_round_def)

lemma np_round_cases:
  "np_round w = of_int \<lfloor>w\<rfloor> \<and> w - of_int \<lfloor>w\<rfloor> \<le> 1 / 2
   \<or> np_round w = of_int \<lfloor>w\<rfloor> + 1 \<and> 1 / 2 \<le> w - of_int \<lfloor>w\<rfloor>"
  unfolding np_round_def Let_def by auto

lemma np_round_error: "\<bar>np_round w - w\<bar> \<le> 1 / 2"
proof -
  have "of_int \<lfloor>w\<rfloor> \<le> w" "w < of_int \<lfloor>w\<rfloor> + 1"
    by linarith+
  with np_round_cases[of w] show ?thesis
    by (elim disjE conjE) linarith+
qed

lemma np_round_ge: "of_int N \<le> w \<Longrightarrow> of_int N \<le> np_round w"
proof -
  assume "of_int N \<le> w"
  then have "N \<le> \<lfloor>w\<rfloor>"
    by (simp add: le_floor_iff)
  then have "real_of_int N \<le> of_int \<lfloor>w\<rfloor>"
    by simp
  with np_round_cases[of w] show ?thesis
    by auto
qed

lemma np_round_le: "w \<le> of_int N \<Longrightarrow> np_round w \<le> of_int N"
proof -
  assume a: "w \<le> of_int N"
  have f: "\<lfloor>w\<rfloor> \<le> N" using a by (simp add: floor_le_iff)
  show ?thesis
  proof (cases "\<lfloor>w\<rfloor> = N")
    case True
    then have "w = of_int N" using a by (metis of_int_floor_le order_antisym)
    then show ?thesis by (simp add: np_round_of_int)
  next
    case False
    with f have "\<lfloor>w\<rfloor> + 1 \<le> N" by simp
    then have "real_of_int (\<lfloor>w\<rfloor> + 1) \<le> of_int N"
      using of_int_le_iff by metis
    then have "real_of_int \<lfloor>w\<rfloor> + 1 \<le> of_int N"
      by simp
    with np_round_cases[of w] show ?thesis
      by (elim disjE conjE) linarith+
  qed
qed

lemma np_round_int_valued: "\<exists>k. np_round w = of_int k"
  using np_round_cases[of w] by (metis of_int_1 of_int_add)

lemma np_round_near:
  assumes "\<bar>w - of_int N\<bar> < 1 / 2"
  shows "np_round w = of_int N"
proof -
  obtain k where k: "np_round w = of_int k"
    using np_round_int_valued by blast
  have "\<bar>real_of_int k - of_int N\<bar> < 1"
    using np_round_error[of w] assms unfolding k by linarith
  then have "\<bar>real_of_int (k - N)\<bar> < 1"
    by simp
  then have "\<bar>k - N\<bar> < 1"
    by (metis of_int_abs of_int_less_1_iff)
  then have "k = N" by simp
  with k show ?thesis by simp
qed

lemma np_round_small: "0 \<le> w \<Longrightarrow> w < 1 / 2 \<Longrightarrow> np_round w = 0"
proof -
  assume "0 \<le> w" "w < 1 / 2"
  then have "\<lfloor>w\<rfloor> = 0" by (simp add: floor_eq_iff)
  then show ?thesis using \<open>w < 1 / 2\<close> by (simp add: np_round_def)
qed

lemma ulp_pos: "0 < ulp x"
  by (simp add: ulp_def)

lemma binade_ge: "- 1022 \<le> binade x"
  by (simp add: binade_def)

lemma binade_eq:
  assumes "- 1022 \<le> k" and "2 powr real_of_int k \<le> \<bar>x\<bar>" and "\<bar>x\<bar> < 2 powr (real_of_int k + 1)"
  shows "binade x = k"
proof -
  have x0: "x \<noteq> 0" using assms(2) by (smt (verit) powr_gt_zero abs_zero)
  have "\<lfloor>log 2 \<bar>x\<bar>\<rfloor> = k"
  proof (rule floor_unique)
    show "of_int k \<le> log 2 \<bar>x\<bar>"
      using assms(2) x0 by (simp add: le_log_iff)
    show "log 2 \<bar>x\<bar> < of_int k + 1"
      using assms(3) x0 by (simp add: log_less_iff)
  qed
  then show ?thesis using x0 assms(1) by (simp add: binade_def)
qed

lemma binade_small:
  assumes "\<bar>x\<bar> < 2 powr (- 1022)"
  shows "binade x = - 1022"
proof (cases "x = 0")
  case True then show ?thesis by (simp add: binade_def)
next
  case False
  have "log 2 \<bar>x\<bar> < - 1022"
    using assms False by (simp add: log_less_iff)
  then have "\<lfloor>log 2 \<bar>x\<bar>\<rfloor> < - 1022"
    by (simp add: floor_less_iff)
  then show ?thesis using False by (simp add: binade_def)
qed

lemma abs_less_binade: "\<bar>x\<bar> < 2 powr (real_of_int (binade x) + 1)"
proof (cases "x = 0")
  case True then show ?thesis by simp
next
  case False
  have "log 2 \<bar>x\<bar> < of_int \<lfloor>log 2 \<bar>x\<bar>\<rfloor> + 1" by linarith
  also have "\<dots> \<le> real_of_int (binade x) + 1"
    using False by (simp add: binade_def)
  finally show ?thesis using False by (simp add: log_less_iff)
qed

lemma binade_le:
  assumes "\<bar>x\<bar> < 2 powr (real_of_int k + 1)" and "- 1022 \<le> k"
  shows "binade x \<le> k"
proof (cases "x = 0")
  case True then show ?thesis using assms(2) by (simp add: binade_def)
next
  case False
  have "log 2 \<bar>x\<bar> < real_of_int k + 1"
    using assms(1) False by (simp add: log_less_iff)
  then have "\<lfloor>log 2 \<bar>x\<bar>\<rfloor> \<le> k"
    by (simp add: floor_le_iff) 
  then show ?thesis using False assms(2) by (simp add: binade_def)
qed

lemma flr_error: "\<bar>flr x - x\<bar> \<le> ulp x / 2"
proof -
  have "\<bar>np_round (x / ulp x) - x / ulp x\<bar> * ulp x \<le> 1 / 2 * ulp x"
    using np_round_error[of "x / ulp x"] ulp_pos[of x] by (intro mult_right_mono) auto
  moreover have "\<bar>np_round (x / ulp x) - x / ulp x\<bar> * ulp x = \<bar>flr x - x\<bar>"
  proof -
    have "\<bar>np_round (x / ulp x) - x / ulp x\<bar> * ulp x
        = \<bar>(np_round (x / ulp x) - x / ulp x) * ulp x\<bar>"
      using ulp_pos[of x] by (simp add: abs_mult)
    also have "(np_round (x / ulp x) - x / ulp x) * ulp x = flr x - x"
      using ulp_pos[of x] by (simp add: flr_def left_diff_distrib)
    finally show ?thesis .
  qed
  ultimately show ?thesis by simp
qed

lemma ulp_of_binade: "binade x = k \<Longrightarrow> ulp x = 2 powr (real_of_int k - 52)"
  by (simp add: ulp_def)

lemma flr_scaled:
  assumes n: "n \<le> 1074" and lo: "2 ^ 52 \<le> \<bar>x\<bar> * 2 ^ n" and hi: "\<bar>x\<bar> * 2 ^ n < 2 ^ 53"
  shows "flr x = np_round (x * 2 ^ n) / 2 ^ n"
proof -
  define k where "k = 52 - int n"
  have p: "2 powr real_of_int k = 2 ^ 52 / 2 ^ n"
    by (simp add: k_def powr_diff powr_realpow)
  have p1: "2 powr (real_of_int k + 1) = 2 ^ 53 / 2 ^ n"
    by (simp add: k_def powr_diff powr_add powr_realpow)
  have "binade x = k"
  proof (rule binade_eq)
    show "- 1022 \<le> k" using n by (simp add: k_def)
    show "2 powr real_of_int k \<le> \<bar>x\<bar>"
      unfolding p using lo by (simp add: field_simps)
    show "\<bar>x\<bar> < 2 powr (real_of_int k + 1)"
      unfolding p1 using hi by (simp add: field_simps)
  qed
  then have "ulp x = 2 powr (- real n)"
    by (simp add: ulp_def k_def)
  then have "ulp x = 1 / 2 ^ n"
    by (simp add: powr_minus powr_realpow divide_inverse)
  then show ?thesis
    by (simp add: flr_def)
qed

lemma flr_subnormal:
  assumes "\<bar>x\<bar> < 2 powr (- 1022)"
  shows "flr x = np_round (x / 2 powr (- 1074)) * 2 powr (- 1074)"
proof -
  have "binade x = - 1022"
    using assms by (rule binade_small)
  then have "ulp x = 2 powr (- 1074)"
    by (simp add: ulp_def)
  then show ?thesis
    by (simp add: flr_def)
qed

lemma flr_zero: "flr 0 = 0"
  by (simp add: flr_def np_round_def)

lemma flr_underflow: "flr (2 powr (- 1000) / 2 ^ 100) = 0"
proof -
  have "(2 ^ 100 :: real) = 2 powr 100"
    by simp
  then have e: "2 powr (- 1000) / 2 ^ 100 = (2 powr (- 1000 - 100) :: real)"
    by (simp only: powr_diff)
  have "(2 powr (- 1000 - 100) :: real) < 2 powr (- 1022)"
    by (rule powr_less_mono) simp_all
  then have "flr (2 powr (- 1000 - 100))
      = np_round (2 powr (- 1000 - 100) / 2 powr (- 1074)) * 2 powr (- 1074)"
    by (intro flr_subnormal) simp
  moreover have "2 powr (- 1000 - 100) / 2 powr (- 1074) = (2 powr (- 1000 - 100 - (- 1074)) :: real)"
    by (simp only: powr_diff)
  moreover have "(2 powr (- 1000 - 100 - (- 1074)) :: real) < 2 powr (- 1)"
    by (rule powr_less_mono) simp_all
  then have "np_round (2 powr (- 1000 - 100 - (- 1074))) = 0"
    by (intro np_round_small) (simp_all add: powr_minus)
  ultimately show ?thesis
    using e by simp
qed

lemma flr_nonneg: "0 \<le> x \<Longrightarrow> 0 \<le> flr x"
proof -
  assume "0 \<le> x"
  then have "of_int 0 \<le> x / ulp x"
    using ulp_pos[of x] by simp
  then have "of_int 0 \<le> np_round (x / ulp x)"
    by (rule np_round_ge)
  then show ?thesis
    using ulp_pos[of x] by (simp add: flr_def)
qed

lemma flr_nonpos: "x \<le> 0 \<Longrightarrow> flr x \<le> 0"
proof -
  assume "x \<le> 0"
  then have "x / ulp x \<le> of_int 0"
    using ulp_pos[of x] by (simp add: divide_le_0_iff)
  then have "np_round (x / ulp x) \<le> of_int 0"
    by (rule np_round_le)
  then show ?thesis
    using ulp_pos[of x] by (simp add: flr_def mult_le_0_iff)
qed

lemma flr_one: "flr 1 = 1"
  by (subst flr_scaled[of 52]) (simp_all add: np_round_def)

lemma flr_le_one:
  assumes "0 \<le> x" and "x \<le> 1"
  shows "flr x \<le> 1"
proof (cases "x = 1")
  case True
  then show ?thesis by (simp add: flr_one)
next
  case False
  with assms have x1: "\<bar>x\<bar> < 1" by simp
  define b where "b = binade x"
  have b: "b \<le> - 1"
    unfolding b_def using x1 by (intro binade_le) simp_all
  have u: "ulp x = 2 powr (real_of_int b - 52)"
    by (simp add: ulp_def b_def)
  have "\<bar>x\<bar> < 2 powr (real_of_int b + 1)"
    unfolding b_def by (rule abs_less_binade)
  then have "x / ulp x < 2 powr (real_of_int b + 1) / 2 powr (real_of_int b - 52)"
    using assms(1) unfolding u by (intro divide_strict_right_mono) simp_all
  also have "\<dots> = 2 powr 53"
    by (simp flip: powr_diff)
  also have "\<dots> = of_int (2 ^ 53)"
    by simp
  finally have "np_round (x / ulp x) \<le> of_int (2 ^ 53)"
    by (intro np_round_le) simp
  then have "flr x \<le> of_int (2 ^ 53) * ulp x"
    unfolding flr_def using ulp_pos[of x] by (intro mult_right_mono) simp_all
  also have "of_int (2 ^ 53) * ulp x = 2 powr 53 * 2 powr (real_of_int b - 52)"
    unfolding u by simp
  also have "\<dots> = 2 powr (53 + (real_of_int b - 52))"
    by (simp only: powr_add)
  also have "53 + (real_of_int b - 52) = real_of_int b + 1"
    by simp
  also have "2 powr (real_of_int b + 1) \<le> (2 powr 0 :: real)"
    using b by (intro powr_mono) simp_all
  finally show ?thesis by simp
qed

lemma fl_unit_interval:
  assumes "0 \<le> x" and "x \<le> 1"
  shows "\<exists>y. fl x = Finite y \<and> 0 \<le> y \<and> y \<le> 1"
proof -
  have "0 \<le> flr x" "flr x \<le> 1"
    using assms by (simp_all add: flr_nonneg flr_le_one)
  moreover from this have "fl x = Finite (flr x)"
    by (simp add: fl_def Let_def)
  ultimately show ?thesis by blast
qed

lemma fl_nonneg:
  assumes "0 \<le> x"
  shows "fl x = PosInf \<or> (\<exists>y. fl x = Finite y \<and> 0 \<le> y)"
  using flr_nonneg[OF assms] by (auto simp: fl_def Let_def)

lemma fl_nonpos:
  assumes "x \<le> 0"
  shows "fl x = NegInf \<or> (\<exists>y. fl x = Finite y \<and> y \<le> 0)"
proof -
  have "flr x \<le> 0" using assms by (rule flr_nonpos)
  moreover have "(0::real) < 2 ^ 1024" by simp
  ultimately show ?thesis
    by (auto simp: fl_def Let_def)
qed

lemma fl_finite: "\<bar>flr x\<bar> < 2 ^ 1024 \<Longrightarrow> fl x = Finite (flr x)"
  by (auto simp: fl_def Let_def)

lemma fl_zero: "fl 0 = Finite 0"
  by (simp add: fl_finite flr_zero)

lemma fl_one: "fl 1 = Finite 1"
  by (simp add: fl_finite flr_one)

lemma flr_exp_tiny:
  assumes "0 \<le> e" and "e \<le> 1 / 2 ^ 55"
  shows "flr (exp (- e)) = 1"
proof -
  have lo: "1 - e \<le> exp (- e)"
    using exp_ge_add_one_self[of "- e"] by simp
  have hi: "exp (- e) \<le> 1"
    using assms(1) by simp
  have e: "e \<le> 1 / 2" using assms(2) by (rule order_trans) simp
  have "flr (exp (- e)) = np_round (exp (- e) * 2 ^ 53) / 2 ^ 53"
  proof (cases "exp (- e) = 1")
    case True
    then show ?thesis using flr_scaled[of 52 1] by (simp add: np_round_def)
  next
    case False
    with hi have "exp (- e) < 1" by simp
    then show ?thesis
      using lo e by (intro flr_scaled) simp_all
  qed
  moreover have "np_round (exp (- e) * 2 ^ 53) = of_int (2 ^ 53)"
  proof (rule np_round_near)
    have "(1 - e) * 2 ^ 53 \<le> exp (- e) * 2 ^ 53"
      using lo by simp
    moreover have "exp (- e) * 2 ^ 53 \<le> 1 * 2 ^ 53"
      using hi by (intro mult_right_mono) simp_all
    moreover have "e * 2 ^ 53 \<le> 1 / 2 ^ 55 * 2 ^ 53"
      using assms(2) by (intro mult_right_mono) simp_all
    ultimately show "\<bar>exp (- e) * 2 ^ 53 - of_int (2 ^ 53)\<bar> < 1 / 2"
      by (simp add: algebra_simps)
  qed
  ultimately show ?thesis by simp
qed

lemma fl_scaled:
  assumes n: "n \<le> 1074" and lo: "2 ^ 52 \<le> \<bar>x\<bar> * 2 ^ n" and hi: "\<bar>x\<bar> * 2 ^ n < 2 ^ 53"
  shows "fl x = Finite (np_round (x * 2 ^ n) / 2 ^ n)"
proof -
  have f: "flr x = np_round (x * 2 ^ n) / 2 ^ n"
    using assms by (rule flr_scaled)
  have "\<bar>x * 2 ^ n\<bar> < 2 ^ 53"
    using hi by (simp add: abs_mult)
  then have "x * 2 ^ n \<le> of_int (2 ^ 53)" "of_int (- (2 ^ 53)) \<le> x * 2 ^ n"
    by simp_all
  then have "np_round (x * 2 ^ n) \<le> of_int (2 ^ 53)" "of_int (- (2 ^ 53)) \<le> np_round (x * 2 ^ n)"
    by (simp_all only: np_round_le np_round_ge)
  then have "\<bar>np_round (x * 2 ^ n)\<bar> \<le> 2 ^ 53"
    by simp
  then have "\<bar>np_round (x * 2 ^ n)\<bar> / 2 ^ n \<le> 2 ^ 53 / 1"
    by (intro frac_le) simp_all
  then have "\<bar>flr x\<bar> \<le> 2 ^ 53"
    unfolding f by simp
  also have "(2 ^ 53 :: real) < 2 ^ 1024"
    by (rule power_strict_increasing) simp_all
  finally show ?thesis
    using f by (simp add: fl_finite)
qed

lemma fl_2: "fl 2 = Finite 2"
  by (subst fl_scaled[of 51]) (simp_all add: np_round_def)


lemma fl_20: "fl 20 = Finite 20"
  by (subst fl_scaled[of 48]) (simp_all add: np_round_def)

lemma fl_minus_1: "fl (- 1) = Finite (- 1)"
  by (subst fl_scaled[of 52]) (simp_all add: np_round_def)

lemma flr_error_below:
  assumes "\<bar>x\<bar> < 2 powr (real_of_int k + 1)" and "- 1022 \<le> k"
  shows "\<bar>flr x - x\<bar> \<le> 2 powr (real_of_int k - 53)"
proof -
  have "binade x \<le> k"
    using assms by (rule binade_le)
  then have "ulp x \<le> 2 powr (real_of_int k - 52)"
    unfolding ulp_def by (intro powr_mono) simp_all
  then have "ulp x / 2 \<le> 2 powr (real_of_int k - 52) / 2"
    by simp
  also have "\<dots> = 2 powr (real_of_int k - 52 - 1)"
    by (simp add: powr_diff)
  finally show ?thesis
    using flr_error[of x] by simp
qed

lemma fl_finite_53: "\<bar>flr x\<bar> \<le> 2 ^ 53 \<Longrightarrow> fl x = Finite (flr x)"
proof -
  assume "\<bar>flr x\<bar> \<le> 2 ^ 53"
  also have "(2 ^ 53 :: real) < 2 ^ 1024"
    by (rule power_strict_increasing) simp_all
  finally show ?thesis
    by (rule fl_finite)
qed

lemma fl_below_2:
  assumes "\<bar>x\<bar> < 2"
  shows "\<exists>y. fl x = Finite y \<and> \<bar>y - x\<bar> \<le> 1 / 2 ^ 53"
proof -
  have "\<bar>flr x - x\<bar> \<le> 2 powr (real_of_int 0 - 53)"
    using assms by (intro flr_error_below) simp_all
  also have "\<dots> = 1 / 2 ^ 53"
    by (simp add: powr_minus_divide)
  finally have e: "\<bar>flr x - x\<bar> \<le> 1 / 2 ^ 53" .
  moreover have "(1 / 2 ^ 53 :: real) \<le> 1"
    by simp
  ultimately have "\<bar>flr x\<bar> \<le> 3"
    using assms by linarith
  then have "\<bar>flr x\<bar> \<le> 2 ^ 53"
    by simp
  then have "fl x = Finite (flr x)"
    by (rule fl_finite_53)
  with e show ?thesis by blast
qed

lemma fl_below_16:
  assumes "\<bar>x\<bar> < 16"
  shows "\<exists>y. fl x = Finite y \<and> \<bar>y - x\<bar> \<le> 1 / 2 ^ 50"
proof -
  have "\<bar>flr x - x\<bar> \<le> 2 powr (real_of_int 3 - 53)"
    using assms by (intro flr_error_below) simp_all
  also have "\<dots> = 1 / 2 ^ 50"
    by (simp add: powr_minus_divide)
  finally have e: "\<bar>flr x - x\<bar> \<le> 1 / 2 ^ 50" .
  moreover have "(1 / 2 ^ 50 :: real) \<le> 1"
    by simp
  ultimately have "\<bar>flr x\<bar> \<le> 17"
    using assms by linarith
  then have "\<bar>flr x\<bar> \<le> 2 ^ 53"
    by simp
  then have "fl x = Finite (flr x)"
    by (rule fl_finite_53)
  with e show ?thesis by blast
qed

section \<open>Calibration\<close>

text \<open>
  C2 as stated says that for every sensitivity and epsilon above zero the probability
  lies in \<open>(0, 1]\<close> and the scale is above zero. In float64 both can be zero: with
  sensitivity 1 and epsilon \<open>2^-70\<close> the exponential rounds to 1 and the probability is
  \<open>1 - 1 = 0\<close>; with sensitivity \<open>2^-1000\<close> and epsilon \<open>2^100\<close> the quotient underflows
  and the scale is 0.
\<close>

theorem calibration_not_positive_counterexample:
  "probability 1 (1 / 2 ^ 70) = Inr (Finite 0)
   \<and> scale (2 powr (- 1000)) (2 ^ 100) = Inr (Finite 0)"
proof -
  have q: "flr (- (1 / 2 ^ 70)) = - (1 / 2 ^ 70)"
    by (subst flr_scaled[of 122]) (simp_all add: np_round_def)
  have "flr (exp (- (1 / 2 ^ 70))) = 1"
    by (rule flr_exp_tiny) simp_all
  then have p: "probability 1 (1 / 2 ^ 70) = Inr (Finite 0)"
    using q by (simp add: probability_def py_truediv_def bind_err_def np_sub_def fl_finite fl_zero)
  have "scale (2 powr (- 1000)) (2 ^ 100) = Inr (fl (2 powr (- 1000) / 2 ^ 100))"
    by (simp add: scale_def py_truediv_def)
  moreover have "flr (2 powr (- 1000) / 2 ^ 100) = 0"
    by (rule flr_underflow)
  ultimately have "scale (2 powr (- 1000)) (2 ^ 100) = Inr (Finite 0)"
    by (simp add: fl_finite)
  with p show ?thesis by simp
qed

text \<open>
  C2, amended. For every sensitivity and epsilon above zero the calibration raises no
  exception. The scale is the float64 nearest to \<open>sensitivity/epsilon\<close>; it is a
  finite number that is at least 0, or \<open>inf\<close>. The probability is
  \<open>1 - exp(-epsilon/sensitivity)\<close> computed in float64, each of the three operations
  rounded; it is a finite number from 0 to 1, both bounds included.
\<close>

theorem calibration_in_range:
  assumes "0 < sensitivity" and "0 < epsilon"
  shows "scale sensitivity epsilon = Inr (fl (sensitivity / epsilon))
       \<and> (fl (sensitivity / epsilon) = PosInf
            \<or> (\<exists>b. fl (sensitivity / epsilon) = Finite b \<and> 0 \<le> b))
       \<and> probability sensitivity epsilon
            = Inr (np_sub (Finite 1) (np_exp (fl (- epsilon / sensitivity))))
       \<and> (\<exists>p. probability sensitivity epsilon = Inr (Finite p) \<and> 0 \<le> p \<and> p \<le> 1)"
proof -
  have s: "scale sensitivity epsilon = Inr (fl (sensitivity / epsilon))"
    using assms by (simp add: scale_def py_truediv_def)
  have r: "fl (sensitivity / epsilon) = PosInf
      \<or> (\<exists>b. fl (sensitivity / epsilon) = Finite b \<and> 0 \<le> b)"
    using assms by (intro fl_nonneg) simp
  have p: "probability sensitivity epsilon
      = Inr (np_sub (Finite 1) (np_exp (fl (- epsilon / sensitivity))))"
    using assms by (simp add: probability_def py_truediv_def bind_err_def)
  have "- epsilon / sensitivity \<le> 0"
    using assms by (simp add: divide_le_0_iff)
  then have "fl (- epsilon / sensitivity) = NegInf
      \<or> (\<exists>y. fl (- epsilon / sensitivity) = Finite y \<and> y \<le> 0)"
    by (rule fl_nonpos)
  then have "\<exists>E. np_exp (fl (- epsilon / sensitivity)) = Finite E \<and> 0 \<le> E \<and> E \<le> 1"
  proof
    assume "fl (- epsilon / sensitivity) = NegInf"
    then show ?thesis by simp
  next
    assume "\<exists>y. fl (- epsilon / sensitivity) = Finite y \<and> y \<le> 0"
    then obtain y where y: "fl (- epsilon / sensitivity) = Finite y" "y \<le> 0" by blast
    have "0 \<le> exp y" "exp y \<le> 1" using y(2) by simp_all
    then have "\<exists>E. fl (exp y) = Finite E \<and> 0 \<le> E \<and> E \<le> 1"
      by (rule fl_unit_interval)
    with y(1) show ?thesis by simp
  qed
  then obtain E where E: "np_exp (fl (- epsilon / sensitivity)) = Finite E" "0 \<le> E" "E \<le> 1"
    by blast
  have "0 \<le> 1 - E" "1 - E \<le> 1" using E by simp_all
  then obtain q where q: "fl (1 - E) = Finite q" "0 \<le> q" "q \<le> 1"
    using fl_unit_interval by blast
  have "np_sub (Finite 1) (np_exp (fl (- epsilon / sensitivity))) = Finite q"
    using E(1) q(1) by (simp add: np_sub_def)
  with p q have "\<exists>p. probability sensitivity epsilon = Inr (Finite p) \<and> 0 \<le> p \<and> p \<le> 1"
    by simp
  with s r p show ?thesis by blast
qed

theorem calibration_in_range_witness:
  "scale 1 (1 / 2) = Inr (Finite 2)
   \<and> (\<exists>p. probability 1 1 = Inr (Finite p) \<and> 0 \<le> p \<and> p \<le> 1)"
proof -
  have "scale 1 (1 / 2) = Inr (Finite 2)"
    using calibration_in_range[of 1 "1 / 2"] by (simp add: fl_2)
  moreover have "\<exists>p. probability 1 1 = Inr (Finite p) \<and> 0 \<le> p \<and> p \<le> 1"
    using calibration_in_range[OF zero_less_one zero_less_one] by blast
  ultimately show ?thesis
    by blast
qed

text \<open>
  C3 as stated says that a sensitivity or epsilon that is not positive makes the
  calibrator fail with an invalid-parameter error. The notebooks check nothing: with
  sensitivity 1 and epsilon -1 a scale of -1 is computed, and with epsilon 0 the
  probability 0 is computed.
\<close>

theorem calibrator_no_validation_counterexample:
  "scale 1 (- 1) = Inr (Finite (- 1)) \<and> probability 1 0 = Inr (Finite 0)"
  by (simp add: scale_def probability_def py_truediv_def bind_err_def np_sub_def
      fl_minus_1 fl_zero fl_one)

text \<open>
  C3, amended. For a sensitivity or epsilon that is not positive, the only failure is
  Python's \<open>ZeroDivisionError\<close>: of the scale when epsilon is zero, of the probability
  when the sensitivity is zero. In every other case the float64 quotient, respectively
  the float64 value of \<open>1 - exp(-epsilon/sensitivity)\<close>, is returned as it is.
\<close>

theorem calibrator_invalid_parameters:
  assumes "sensitivity \<le> 0 \<or> epsilon \<le> 0"
  shows "scale sensitivity epsilon =
           (if epsilon = 0 then Inl ZeroDivisionError else Inr (fl (sensitivity / epsilon)))
       \<and> probability sensitivity epsilon =
           (if sensitivity = 0 then Inl ZeroDivisionError
            else Inr (np_sub (Finite 1) (np_exp (fl (- epsilon / sensitivity)))))"
  by (simp add: scale_def probability_def py_truediv_def bind_err_def)

theorem calibrator_invalid_parameters_witness:
  "scale 1 0 = Inl ZeroDivisionError \<and> probability 0 1 = Inl ZeroDivisionError
   \<and> scale 1 (- 2) = Inr (Finite (- (1 / 2))) \<and> probability 1 0 = Inr (Finite 0)"
proof -
  have h: "fl (- (1 / 2)) = Finite (- (1 / 2))"
    by (subst fl_scaled[of 53]) (simp_all add: np_round_def)
  from calibrator_invalid_parameters[of 1 0] calibrator_invalid_parameters[of 0 1]
    calibrator_invalid_parameters[of 1 "- 2"] h
  show ?thesis
    by (simp add: np_sub_def fl_zero fl_one)
qed

section \<open>Relative error\<close>

lemma frame_divide_eq:
  "frame_divide e t = (if same_shape e t then Inr (map2 (map2 true_divide) e t) else Inl ValueError)"
  by (simp add: frame_divide_def frame_map2_def)

lemma abs_diff_eq:
  "abs_diff p t = (if same_shape p t then Inr (map2 (map2 (\<lambda>x y. \<bar>x - y\<bar>)) p t) else Inl ValueError)"
  by (simp add: abs_diff_def frame_map2_def)

text \<open>
  C4 as stated says that the relative error of a cell is 0 when the true count and the
  absolute error are both 0. The notebooks divide the two frames and nothing else:
  where both are 0 the cell is \<open>nan\<close>, which is not 0.
\<close>

theorem relative_error_zero_counterexample:
  "abs_diff [[0]] [[0]] = Inr [[0]]
   \<and> frame_divide [[0]] [[0]] = Inr [[NaN]]
   \<and> map_sum id pcterrortab (geometric_cell [[0]] [[0]]) = Inr [[NaN]]
   \<and> NaN \<noteq> Finite 0"
  by (simp add: geometric_cell_eq abs_diff_eq frame_divide_eq same_shape_def true_divide_def
      clamp_negative_def wrap64_def Let_def)

text \<open>
  C4, amended. For every published table and true table of one shape, the error
  computation raises nothing; each cell of the relative error is the absolute error
  divided by the true count where the true count is not 0, \<open>+inf\<close> where the true count
  is 0 and the absolute error is positive, and \<open>nan\<close> where both are 0.
\<close>

theorem relative_error_cells:
  assumes "same_shape published true_tab"
  shows "\<exists>err pct. abs_diff published true_tab = Inr err \<and> frame_divide err true_tab = Inr pct
           \<and> same_shape pct true_tab
           \<and> (\<forall>i<length true_tab. \<forall>j<length (true_tab ! i).
                 err ! i ! j = \<bar>published ! i ! j - true_tab ! i ! j\<bar>
               \<and> pct ! i ! j =
                   (if true_tab ! i ! j \<noteq> 0
                      then Finite (real_of_int (err ! i ! j) / real_of_int (true_tab ! i ! j))
                    else if 0 < err ! i ! j then PosInf
                    else NaN))"
proof -
  define err where "err = map2 (map2 (\<lambda>x y. \<bar>x - y\<bar>)) published true_tab"
  define pct where "pct = map2 (map2 true_divide) err true_tab"
  have se: "same_shape err true_tab"
    unfolding err_def using assms by (rule same_shape_map2)
  have sp: "same_shape pct true_tab"
    unfolding pct_def using se by (rule same_shape_map2)
  have a: "abs_diff published true_tab = Inr err"
    using assms by (simp add: abs_diff_eq err_def)
  have d: "frame_divide err true_tab = Inr pct"
    using se by (simp add: frame_divide_eq pct_def)
  have cells: "err ! i ! j = \<bar>published ! i ! j - true_tab ! i ! j\<bar>
      \<and> pct ! i ! j =
          (if true_tab ! i ! j \<noteq> 0
             then Finite (real_of_int (err ! i ! j) / real_of_int (true_tab ! i ! j))
           else if 0 < err ! i ! j then PosInf
           else NaN)"
    if i: "i < length true_tab" and j: "j < length (true_tab ! i)" for i j
  proof -
    have ip: "i < length published" "j < length (published ! i)"
      using assms i j same_shape_length[of published true_tab] same_shape_nth[of published true_tab i]
      by simp_all
    have ie: "i < length err" "j < length (err ! i)"
      using se i j same_shape_length[of err true_tab] same_shape_nth[of err true_tab i]
      by simp_all
    have e: "err ! i ! j = \<bar>published ! i ! j - true_tab ! i ! j\<bar>"
      unfolding err_def using assms ip by (rule nth_map2_map2)
    have p: "pct ! i ! j = true_divide (err ! i ! j) (true_tab ! i ! j)"
      unfolding pct_def using se ie by (rule nth_map2_map2)
    have "0 \<le> err ! i ! j"
      using e by simp
    then show ?thesis
      using e p by (auto simp: true_divide_def)
  qed
  show ?thesis
    using a d sp cells by blast
qed

theorem relative_error_cells_witness:
  "abs_diff [[1, 0, 3]] [[0, 0, 2]] = Inr [[1, 0, 1]]
   \<and> frame_divide [[1, 0, 1]] [[0, 0, 2]] = Inr [[PosInf, NaN, Finite (1 / 2)]]"
proof -
  have s: "same_shape [[1, 0, 3 :: int]] [[0, 0, 2 :: int]]"
    by (simp add: same_shape_def)
  from relative_error_cells[OF s] show ?thesis
    by (simp add: abs_diff_eq frame_divide_eq same_shape_def true_divide_def)
qed

section \<open>The Laplace cells in closed form\<close>

text \<open>
  The final state of the Laplace cells. Here \<open>noisytab\<close> is a float frame of its own,
  and \<open>noisytabpost\<close> is the new integer frame that \<open>round\<close> and \<open>astype\<close> built.
\<close>

lemma same_shape_round: "same_shape (round_astype_int a) b = same_shape a b"
  by (simp add: same_shape_def round_astype_int_def comp_def)

lemma laplace_cells_eq:
  "laplace_cells t n =
     (if same_shape t n then
        (let raw = map2 (map2 (\<lambda>x y. real_of_int x + y)) t n;
             pub = clamp_negative (round_astype_int raw);
             err = map2 (map2 (\<lambda>x y. \<bar>x - y\<bar>)) pub t in
         Inr \<lparr>lap_floats = \<lparr>objs = [0 \<mapsto> raw], next_ref = 1\<rparr>,
              lap_ints = \<lparr>objs = [0 \<mapsto> t, Suc 0 \<mapsto> pub, 2 \<mapsto> err], next_ref = 3\<rparr>,
              lap_truetab = 0, lap_noisytab = 0, lap_noisytabpost = Suc 0, lap_errortab = 2,
              lap_pcterrortab = map2 (map2 true_divide) err t,
              lap_errorsum = sum_sum err, lap_truesum = sum_sum t,
              lap_errorrel = true_divide (100 * sum_sum err) (sum_sum t)\<rparr>)
      else Inl ValueError)"
proof (cases "same_shape t n")
  case False
  then show ?thesis
    by (simp add: laplace_cells_def new_obj_def empty_heap_def load_def bind_err_def
        frame_add_float_def frame_map2_def)
next
  case True
  have s1: "same_shape (clamp_negative (round_astype_int (map2 (map2 (\<lambda>x y. real_of_int x + y)) t n))) t"
    using True by (simp add: same_shape_clamp same_shape_round same_shape_map2_left)
  have s2: "same_shape (map2 (map2 (\<lambda>x y. \<bar>x - y\<bar>))
      (clamp_negative (round_astype_int (map2 (map2 (\<lambda>x y. real_of_int x + y)) t n))) t) t"
    using s1 by (rule same_shape_map2)
  show ?thesis using True s1 s2
    by (simp add: laplace_cells_def new_obj_def empty_heap_def load_def bind_err_def
        frame_add_float_def frame_map2_def store_obj_def abs_diff_def frame_divide_def Let_def
        clamp_in_place_def numeral_3_eq_3 numeral_2_eq_2)
qed

text \<open>
  X1. With equal shapes the Laplace cells keep the true table and the raw noisy table
  as they were, and publish the post-processed copy: a frame of its own.
\<close>

theorem laplace_cells_frames:
  assumes "same_shape t n"
  shows "\<exists>st raw. frame_add_float t n = Inr raw \<and> laplace_cells t n = Inr st
           \<and> lap_int_frame_of st lap_truetab = Some t
           \<and> lap_float_frame_of st lap_noisytab = Some raw
           \<and> lap_int_frame_of st lap_noisytabpost = Some (laplace_postprocess raw)"
  using assms
  by (simp add: laplace_cells_eq frame_add_float_def frame_map2_def Let_def
      lap_int_frame_of_def lap_float_frame_of_def laplace_postprocess_def)

theorem laplace_cells_frames_witness:
  "same_shape [[0, 5 :: int]] [[- 3 / 2, 1 / 4 :: real]]
   \<and> map_sum id (\<lambda>st. (lap_int_frame_of st lap_truetab, lap_float_frame_of st lap_noisytab,
                        lap_int_frame_of st lap_noisytabpost))
        (laplace_cells [[0, 5]] [[- 3 / 2, 1 / 4]])
     = Inr (Some [[0, 5]], Some [[- 3 / 2, 21 / 4]], Some [[0, 5]])"
proof -
  have s: "same_shape [[0, 5 :: int]] [[- 3 / 2, 1 / 4 :: real]]"
    by (simp add: same_shape_def)
  have r: "round_astype_int [[- 3 / 2, 21 / 4]] = [[- 2, 5]]"
    by (simp add: round_astype_int_def np_round_def astype_int_def Let_def)
  have e: "map_sum id (\<lambda>st. (lap_int_frame_of st lap_truetab, lap_float_frame_of st lap_noisytab,
                        lap_int_frame_of st lap_noisytabpost))
        (laplace_cells [[0, 5]] [[- 3 / 2, 1 / 4]])
     = Inr (Some [[0, 5]], Some [[- 3 / 2, 21 / 4]], Some [[0, 5]])"
    using s r
    by (simp add: laplace_cells_eq Let_def lap_int_frame_of_def lap_float_frame_of_def
        clamp_negative_def)
  from laplace_cells_frames[OF s] e s show ?thesis
    by blast
qed

text \<open>
  X2. With equal shapes the geometric cell keeps the true table, and leaves both
  \<open>noisytab\<close> and \<open>noisytabpost\<close> bound to one frame, which holds the clamped table.
\<close>

theorem geometric_cell_frames:
  assumes "same_shape t n"
  shows "\<exists>st raw. frame_add t n = Inr raw \<and> geometric_cell t n = Inr st
           \<and> frame_of st truetab = Some t
           \<and> noisytab st = noisytabpost st
           \<and> frame_of st noisytab = Some (clamp_negative raw)
           \<and> frame_of st noisytabpost = Some (clamp_negative raw)"
  using assms
  by (simp add: geometric_cell_eq frame_add_def frame_map2_def Let_def frame_of_def)

theorem geometric_cell_frames_witness:
  "same_shape [[0, 5 :: int]] [[- 3, 2 :: int]]
   \<and> map_sum id (\<lambda>st. (frame_of st truetab, frame_of st noisytab, frame_of st noisytabpost))
        (geometric_cell [[0, 5]] [[- 3, 2]])
     = Inr (Some [[0, 5]], Some [[0, 7]], Some [[0, 7]])"
proof -
  have s: "same_shape [[0, 5 :: int]] [[- 3, 2 :: int]]"
    by (simp add: same_shape_def)
  from geometric_cell_frames[OF s] s show ?thesis
    by (simp add: geometric_cell_eq Let_def frame_of_def clamp_negative_def wrap64_def)
qed

section \<open>The raw noisy table after post-processing\<close>

text \<open>
  C5. The claim: post-processing leaves the raw noisy table and the true table as they
  were, so that all three tables can be compared afterwards. In the geometric notebook
  \<open>noisytabpost=noisytab\<close> binds a second name to the same frame, and the masked
  assignment then overwrites it. With the true table
  \<open>[[18,19],[13,16],[10,10],[8,5],[0,1]]\<close> and the noise
  \<open>[[0,-1],[-3,1],[-1,-2],[3,-3],[-1,0]]\<close> the raw noisy table has the cell \<open>-1\<close>; after
  the cell has run, \<open>noisytab\<close> holds \<open>0\<close> there, as \<open>noisytabpost\<close> does. The true table
  is unchanged.
\<close>

theorem geometric_postprocess_overwrites_noisytab:
  "frame_add [[18,19],[13,16],[10,10],[8,5],[0,1]] [[0,-1],[-3,1],[-1,-2],[3,-3],[-1,0]]
     = Inr [[18,18],[10,17],[9,8],[11,2],[-1,1]]
   \<and> map_sum id (\<lambda>st. (frame_of st noisytab, frame_of st noisytabpost, frame_of st truetab))
       (geometric_cell [[18,19],[13,16],[10,10],[8,5],[0,1]] [[0,-1],[-3,1],[-1,-2],[3,-3],[-1,0]])
     = Inr (Some [[18,18],[10,17],[9,8],[11,2],[0,1]],
            Some [[18,18],[10,17],[9,8],[11,2],[0,1]],
            Some [[18,19],[13,16],[10,10],[8,5],[0,1]])"
  by (simp add: geometric_cell_eq frame_add_def wrap64_def frame_map2_def same_shape_def clamp_negative_def
      frame_of_def Let_def)

section \<open>Non-negative tables\<close>

lemma nth_opt_in_set: "nth_opt xs k = Some x \<Longrightarrow> x \<in> set xs"
  by (induction xs k rule: nth_opt.induct) auto

lemma crosstab_cells_nonneg:
  "row \<in> set (cells (crosstab index columns)) \<Longrightarrow> c \<in> set row \<Longrightarrow> 0 \<le> c"
  by (auto simp: crosstab_def Let_def)

lemma cell_at_crosstab_nonneg:
  assumes "cell_at (crosstab index columns) r c = Some v"
  shows "0 \<le> v"
proof -
  from assms obtain i j row where
    "nth_opt (cells (crosstab index columns)) i = Some row" and "nth_opt row j = Some v"
    by (auto simp: cell_at_def split: option.splits)
  then have "row \<in> set (cells (crosstab index columns))" and "v \<in> set row"
    by (auto dest: nth_opt_in_set)
  then show ?thesis
    by (rule crosstab_cells_nonneg)
qed

lemma make_truetab_nonneg:
  "row \<in> set (make_truetab myrecs occvalid sexvalid) \<Longrightarrow> c \<in> set row \<Longrightarrow> 0 \<le> c"
proof -
  assume "row \<in> set (make_truetab myrecs occvalid sexvalid)" and "c \<in> set row"
  then obtain r k where
    c: "c = (case cell_at (crosstab (map Occupation myrecs) (map Sex myrecs)) r k of
              None \<Rightarrow> 0 | Some v \<Rightarrow> v)"
    by (auto simp: make_truetab_def reindex_def)
  show "0 \<le> c"
  proof (cases "cell_at (crosstab (map Occupation myrecs) (map Sex myrecs)) r k")
    case None
    with c show ?thesis by simp
  next
    case (Some v)
    with c cell_at_crosstab_nonneg[OF Some] show ?thesis by simp
  qed
qed

lemma clamp_negative_nonneg:
  "row \<in> set (clamp_negative t) \<Longrightarrow> c \<in> set row \<Longrightarrow> 0 \<le> c"
  for t :: "int frame"
  by (auto simp: clamp_negative_def)

text \<open>
  C6. Every cell of the true table that enters the pipeline is at least 0. Whatever
  the noise, every cell of the table that the geometric cell publishes is at least 0,
  and so is every cell of the table that the Laplace cells publish; the latter is a
  table of integers.
\<close>

theorem tables_nonnegative:
  "(\<forall>row\<in>set (make_truetab myrecs occvalid sexvalid). \<forall>c\<in>set row. 0 \<le> c)
   \<and> (same_shape t n \<longrightarrow>
        (\<exists>st pub. geometric_cell t n = Inr st \<and> frame_of st noisytabpost = Some pub
           \<and> same_shape pub t \<and> (\<forall>row\<in>set pub. \<forall>c\<in>set row. 0 \<le> c)))
   \<and> (same_shape t nf \<longrightarrow>
        (\<exists>st pub. laplace_cells t nf = Inr st \<and> lap_int_frame_of st lap_noisytabpost = Some pub
           \<and> same_shape pub t \<and> (\<forall>row\<in>set pub. \<forall>c\<in>set row. 0 \<le> c)
           \<and> (\<forall>row\<in>set (as_float pub). \<forall>c\<in>set row. c \<in> \<int>)))"
proof (intro conjI impI)
  show "\<forall>row\<in>set (make_truetab myrecs occvalid sexvalid). \<forall>c\<in>set row. 0 \<le> c"
    using make_truetab_nonneg by blast
next
  assume s: "same_shape t n"
  define pub where "pub = clamp_negative (map2 (map2 (\<lambda>x y. wrap64 (x + y))) t n)"
  have "same_shape pub t"
    unfolding pub_def using s by (simp add: same_shape_clamp same_shape_map2_left)
  moreover have "\<forall>row\<in>set pub. \<forall>c\<in>set row. 0 \<le> c"
    unfolding pub_def using clamp_negative_nonneg by blast
  moreover have "\<exists>st. geometric_cell t n = Inr st \<and> frame_of st noisytabpost = Some pub"
    using s by (simp add: geometric_cell_eq Let_def frame_of_def pub_def)
  ultimately show "\<exists>st pub. geometric_cell t n = Inr st \<and> frame_of st noisytabpost = Some pub
      \<and> same_shape pub t \<and> (\<forall>row\<in>set pub. \<forall>c\<in>set row. 0 \<le> c)"
    by blast
next
  assume s: "same_shape t nf"
  define pub where
    "pub = clamp_negative (round_astype_int (map2 (map2 (\<lambda>x y. real_of_int x + y)) t nf))"
  have "same_shape pub t"
    unfolding pub_def using s by (simp add: same_shape_clamp same_shape_round same_shape_map2_left)
  moreover have "\<forall>row\<in>set pub. \<forall>c\<in>set row. 0 \<le> c"
    unfolding pub_def using clamp_negative_nonneg by blast
  moreover have "\<forall>row\<in>set (as_float pub). \<forall>c\<in>set row. c \<in> \<int>"
    by (auto simp: as_float_def)
  moreover have "\<exists>st. laplace_cells t nf = Inr st \<and> lap_int_frame_of st lap_noisytabpost = Some pub"
    using s by (simp add: laplace_cells_eq Let_def lap_int_frame_of_def pub_def)
  ultimately show "\<exists>st pub. laplace_cells t nf = Inr st
      \<and> lap_int_frame_of st lap_noisytabpost = Some pub
      \<and> same_shape pub t \<and> (\<forall>row\<in>set pub. \<forall>c\<in>set row. 0 \<le> c)
      \<and> (\<forall>row\<in>set (as_float pub). \<forall>c\<in>set row. c \<in> \<int>)"
    by blast
qed

theorem tables_nonnegative_witness:
  "make_truetab
     [\<lparr>Sex = ''F'', Age = 44, Married = ''W'', Earnings = 406813, Occupation = ''Geographer''\<rparr>,
      \<lparr>Sex = ''M'', Age = 51, Married = ''S'', Earnings = 67113, Occupation = ''Economist''\<rparr>,
      \<lparr>Sex = ''F'', Age = 64, Married = ''N'', Earnings = 78484, Occupation = ''Geographer''\<rparr>]
     [''Statistician'', ''Economist'', ''Geographer''] [''M'', ''F'']
     = [[0, 0], [1, 0], [0, 2]]
   \<and> same_shape [[0, 1 :: int]] [[- 1, 0 :: int]]
   \<and> map_sum id (\<lambda>st. frame_of st noisytabpost) (geometric_cell [[0, 1]] [[- 1, 0]])
       = Inr (Some [[0, 1]])
   \<and> same_shape [[0, 1 :: int]] [[- 3 / 2, 3 / 2 :: real]]
   \<and> map_sum id (\<lambda>st. lap_int_frame_of st lap_noisytabpost)
         (laplace_cells [[0, 1]] [[- 3 / 2, 3 / 2]])
       = Inr (Some [[0, 2]])"
proof -
  have m: "make_truetab
     [\<lparr>Sex = ''F'', Age = 44, Married = ''W'', Earnings = 406813, Occupation = ''Geographer''\<rparr>,
      \<lparr>Sex = ''M'', Age = 51, Married = ''S'', Earnings = 67113, Occupation = ''Economist''\<rparr>,
      \<lparr>Sex = ''F'', Age = 64, Married = ''N'', Earnings = 78484, Occupation = ''Geographer''\<rparr>]
     [''Statistician'', ''Economist'', ''Geographer''] [''M'', ''F'']
     = [[0, 0], [1, 0], [0, 2]]"
    by code_simp
  have g: "same_shape [[0, 1 :: int]] [[- 1, 0 :: int]]"
    by (simp add: same_shape_def)
  have l: "same_shape [[0, 1 :: int]] [[- 3 / 2, 3 / 2 :: real]]"
    by (simp add: same_shape_def)
  have r: "round_astype_int [[- 3 / 2, 5 / 2]] = [[- 2, 2]]"
    by (simp add: round_astype_int_def np_round_def astype_int_def Let_def)
  show ?thesis
    using tables_nonnegative[of _ _ _ "[[0, 1]]" "[[- 1, 0]]" "[[- 3 / 2, 3 / 2]]"] m g l r
    by (simp add: geometric_cell_eq laplace_cells_eq Let_def frame_of_def lap_int_frame_of_def
        clamp_negative_def wrap64_def)
qed

section \<open>Post-processing twice\<close>

lemma astype_int_of_int: "astype_int (of_int k) = k"
  by (simp add: astype_int_def)

lemma clamp_negative_idem: "clamp_negative (clamp_negative t) = clamp_negative t"
  for t :: "('a::{zero,linorder}) frame"
  by (simp add: clamp_negative_def comp_def)

lemma round_astype_as_float: "round_astype_int (as_float p) = p"
  by (simp add: round_astype_int_def as_float_def comp_def np_round_of_int astype_int_of_int)

lemma clamp_in_place_twice:
  "bind_err (clamp_in_place h r) (\<lambda>h'. clamp_in_place h' r) = clamp_in_place h r"
  for h :: "('a::{zero,linorder}) frame heap"
  by (cases "objs h r")
     (simp_all add: clamp_in_place_def bind_err_def load_def store_obj_def clamp_negative_idem)

text \<open>
  C7. Post-processing a table a second time changes nothing: running the masked
  assignment again on the frame in the store gives the same store, clamping a clamped
  table gives the same table, and rounding, converting and clamping the published
  Laplace table gives the published table.
\<close>

theorem postprocess_idempotent:
  "bind_err (clamp_in_place h r) (\<lambda>h'. clamp_in_place h' r) = clamp_in_place h r
   \<and> clamp_negative (clamp_negative t) = clamp_negative t
   \<and> laplace_postprocess (as_float (laplace_postprocess x)) = laplace_postprocess x"
  for h :: "int frame heap" and t :: "int frame"
  by (simp add: laplace_postprocess_def round_astype_as_float clamp_negative_idem
      clamp_in_place_twice)

section \<open>The epsilon grid\<close>

text \<open>
  The logarithm of the float64 \<open>0.1\<close>, which is a little above one tenth, rounds to
  \<open>-1\<close>.
\<close>

lemma ln_10_gt_1: "1 < ln (10 :: real)"
proof -
  have "exp (1 :: real) < 10"
    using exp_le by (smt (verit))
  then have "ln (exp (1 :: real)) < ln 10"
    by (subst ln_less_cancel_iff) simp_all
  then show ?thesis by simp
qed

lemma log10_float_0_1_gt: "- 1 < log 10 float_0_1"
  and log10_float_0_1_lt: "log 10 float_0_1 < - 1 + 1 / 2 ^ 54"
proof -
  define c :: real where "c = 1 / 2 ^ 54"
  define t where "t = ln (1 + c)"
  define m :: real where "m = ln 10"
  have c: "0 < c" "c < 1" by (simp_all add: c_def)
  have e: "float_0_1 = (1 + c) / 10"
    by (simp add: float_0_1_def c_def)
  have "log 10 float_0_1 = log 10 (1 + c) - log 10 10"
    unfolding e using c by (intro log_divide_pos) simp_all
  then have l: "log 10 float_0_1 + 1 = t / m"
    by (simp add: log_def t_def m_def)
  have p: "0 < t"
    unfolding t_def using c by (subst ln_gt_zero_iff) simp_all
  have u: "t \<le> c"
    unfolding t_def using c by (intro ln_add_one_self_le_self) simp
  have m: "1 < m"
    unfolding m_def by (rule ln_10_gt_1)
  have "t / m < t / 1"
    using p m by (intro divide_strict_left_mono) simp_all
  then have lt: "t / m < c"
    using u by simp
  have ge: "0 < t / m"
    using p m by simp
  show "- 1 < log 10 float_0_1"
    using l ge by linarith
  have "log 10 float_0_1 < - 1 + c"
    using l lt by linarith
  then show "log 10 float_0_1 < - 1 + 1 / 2 ^ 54"
    unfolding c_def .
qed

lemma flr_log10_float_0_1: "flr (log 10 float_0_1) = - 1"
proof -
  define L where "L = log 10 float_0_1"
  have g: "- 1 < L"
    unfolding L_def by (rule log10_float_0_1_gt)
  have a: "L < - 1 + 1 / 2 ^ 54"
    unfolding L_def by (rule log10_float_0_1_lt)
  have n: "\<bar>L\<bar> = - L" "1 / 2 \<le> - L" "- L < 1"
    using g a by simp_all
  have "flr L = np_round (L * 2 ^ 53) / 2 ^ 53"
  proof (rule flr_scaled)
    show "(53 :: nat) \<le> 1074" by simp
    have "1 / 2 * 2 ^ 53 \<le> - L * 2 ^ 53"
      using n(2) by (intro mult_right_mono) simp_all
    then show "2 ^ 52 \<le> \<bar>L\<bar> * 2 ^ 53"
      unfolding n(1) by simp
    have "- L * 2 ^ 53 < 1 * 2 ^ 53"
      using n(3) by (intro mult_strict_right_mono) simp_all
    then show "\<bar>L\<bar> * 2 ^ 53 < 2 ^ 53"
      unfolding n(1) by simp
  qed
  moreover have "np_round (L * 2 ^ 53) = of_int (- (2 ^ 53))"
  proof (rule np_round_near)
    have "(L + 1) * 2 ^ 53 < 1 / 2 ^ 54 * 2 ^ 53"
      using a by (intro mult_strict_right_mono) simp_all
    moreover have "0 < (L + 1) * 2 ^ 53"
      using g by simp
    ultimately show "\<bar>L * 2 ^ 53 - of_int (- (2 ^ 53))\<bar> < 1 / 2"
      by (simp add: algebra_simps)
  qed
  ultimately show ?thesis
    unfolding L_def by simp
qed

lemma np_log10_float_0_1: "np_log10 (Finite float_0_1) = Finite (- 1)"
proof -
  have "0 < float_0_1" by (simp add: float_0_1_def)
  then show ?thesis
    by (simp add: fl_finite flr_log10_float_0_1)
qed

lemma np_log10_10: "np_log10 (Finite 10) = Finite 1"
  by (simp add: fl_one)







text \<open>
  A power of ten of an exponent that is within \<open>2^-50\<close> of \<open>c \<le> 1\<close> is within
  \<open>10^-12\<close> of \<open>10^c\<close> after rounding.
\<close>

lemma exp_near_one:
  fixes t :: real
  assumes "\<bar>t\<bar> \<le> 1"
  shows "\<bar>exp t - 1\<bar> \<le> 2 * \<bar>t\<bar>"
proof (cases "0 \<le> t")
  case True
  then have "exp t \<le> 1 + t + t\<^sup>2"
    using assms by (intro exp_bound) simp_all
  moreover have "t\<^sup>2 \<le> t"
    using True assms by (simp add: power2_eq_square mult_left_le_one_le)
  moreover have "1 \<le> exp t"
    using True by simp
  ultimately show ?thesis
    using True by simp
next
  case False
  then have "1 + t \<le> exp t" "exp t \<le> 1"
    using exp_ge_add_one_self[of t] by simp_all
  then show ?thesis
    using False by linarith
qed

lemma ln_10_le: "ln (10 :: real) \<le> 10"
  using ln_bound[of 10] by simp

lemma power10_near:
  fixes x c :: real
  assumes x: "\<bar>x - c\<bar> \<le> 1 / 2 ^ 50" and c: "c \<le> 1"
  shows "\<bar>10 powr x - 10 powr c\<bar> \<le> 200 / 2 ^ 50"
proof -
  define t where "t = (x - c) * ln 10"
  have l: "0 < ln (10 :: real)" by simp
  have "\<bar>t\<bar> = \<bar>x - c\<bar> * ln 10"
    by (simp add: t_def abs_mult)
  also have "\<dots> \<le> 1 / 2 ^ 50 * 10"
    using x ln_10_le by (intro mult_mono) simp_all
  finally have t: "\<bar>t\<bar> \<le> 10 / 2 ^ 50"
    by simp
  then have t1: "\<bar>t\<bar> \<le> 1"
    by simp
  have "10 powr x = 10 powr c * exp t"
    by (simp add: powr_def t_def exp_add[symmetric] algebra_simps)
  then have "10 powr x - 10 powr c = 10 powr c * (exp t - 1)"
    by (simp add: algebra_simps)
  then have "\<bar>10 powr x - 10 powr c\<bar> = 10 powr c * \<bar>exp t - 1\<bar>"
    by (simp add: abs_mult)
  also have "\<dots> \<le> 10 powr 1 * (2 * \<bar>t\<bar>)"
    using c exp_near_one[OF t1] by (intro mult_mono powr_mono) simp_all
  also have "\<dots> \<le> 10 * (2 * (10 / 2 ^ 50))"
    using t by simp
  finally show ?thesis
    by simp
qed

lemma np_power10_near:
  assumes x: "\<bar>x - c\<bar> \<le> 1 / 2 ^ 50" and c: "c \<le> 1"
  shows "\<exists>p. np_power10 (Finite x) = Finite p \<and> \<bar>p - 10 powr c\<bar> \<le> 1 / 10 ^ 12"
proof -
  have d: "\<bar>10 powr x - 10 powr c\<bar> \<le> 200 / 2 ^ 50"
    using assms by (rule power10_near)
  have "10 powr c \<le> 10 powr 1"
    using c by (intro powr_mono) simp_all
  then have "10 powr c \<le> 10"
    by simp
  moreover have "0 < 10 powr x"
    by simp
  moreover have "(200 / 2 ^ 50 :: real) < 1"
    by simp
  ultimately have "\<bar>10 powr x\<bar> < 16"
    using d by linarith
  then obtain p where p: "fl (10 powr x) = Finite p" "\<bar>p - 10 powr x\<bar> \<le> 1 / 2 ^ 50"
    using fl_below_16 by blast
  have "\<bar>p - 10 powr c\<bar> \<le> \<bar>p - 10 powr x\<bar> + \<bar>10 powr x - 10 powr c\<bar>"
    by simp
  also have "\<dots> \<le> 1 / 2 ^ 50 + 200 / 2 ^ 50"
    using p(2) d by simp
  also have "\<dots> \<le> 1 / 10 ^ 12"
    by simp
  finally show ?thesis
    using p(1) by simp
qed

text \<open>
  With \<open>epscnt = 20\<close> the quotient \<open>(stop - start)/step\<close> is 21.
\<close>

lemma grid20_step: "np_div (Finite 2) (Finite 20) = Finite (3602879701896397 / 36028797018963968)"
  by (simp only: np_div.simps, subst fl_scaled[of 56]) (simp_all add: np_round_def Let_def)

lemma grid20_stop: "np_add (Finite 1) (Finite (3602879701896397 / 36028797018963968))
    = Finite (2476979795053773 / 2251799813685248)"
  by (simp only: np_add.simps, subst fl_scaled[of 52]) (simp_all add: np_round_def Let_def)

lemma grid20_span: "np_sub (Finite (2476979795053773 / 2251799813685248)) (Finite (- 1))
    = Finite (4728779608739021 / 2251799813685248)"
  by (simp only: np_sub_def np_neg.simps np_add.simps, subst fl_scaled[of 51])
     (simp_all add: np_round_def Let_def)

lemma grid20_quotient: "np_div (Finite (4728779608739021 / 2251799813685248))
      (Finite (3602879701896397 / 36028797018963968)) = Finite 21"
  by (simp only: np_div.simps, subst fl_scaled[of 48]) (simp_all add: np_round_def Let_def)

lemma grid20_next: "np_add (Finite (- 1)) (Finite (3602879701896397 / 36028797018963968))
    = Finite (- (8106479329266893 / 9007199254740992))"
  by (simp only: np_add.simps, subst fl_scaled[of 53]) (simp_all add: np_round_def Let_def)

lemma grid20_delta: "np_sub (Finite (- (8106479329266893 / 9007199254740992))) (Finite (- 1))
    = Finite (900719925474099 / 9007199254740992)"
  by (simp only: np_sub_def np_neg.simps np_add.simps, subst fl_scaled[of 56])
     (simp_all add: np_round_def Let_def)

lemma arange_20:
  "arange (Finite (- 1)) (Finite (2476979795053773 / 2251799813685248))
     (Finite (3602879701896397 / 36028797018963968)) = Inr grid20"
proof -
  have v: "\<not> 2 ^ 63 \<le> \<bar>21 :: real\<bar>"
    by simp
  have c: "nat \<lceil>21 :: real\<rceil> = 21"
    by simp
  show ?thesis
    unfolding arange_def grid20_span grid20_quotient grid20_def
    by (simp only: npfloat.case v if_False Let_def c grid20_next grid20_delta)
qed

lemma epsset_20: "epsset float_0_1 10 20 = Inr (map np_power10 grid20)"
proof -
  have s: "np_sub (Finite 1) (Finite (- 1)) = Finite 2"
    by (simp add: np_sub_def fl_2)
  show ?thesis
    unfolding epsset_def Let_def np_log10_float_0_1 np_log10_10 s of_int_numeral fl_20 grid20_step grid20_stop
      arange_20
    by (simp add: bind_err_def)
qed

lemma grid20_later:
  assumes "2 \<le> i" and "i \<le> 20"
  shows "\<exists>x. np_add (Finite (- 1)) (np_mul (Finite (real i)) (Finite (900719925474099 / 9007199254740992)))
           = Finite x \<and> \<bar>x - (- 1 + real i / 10)\<bar> \<le> 1 / 2 ^ 50"
proof -
  define delta :: real where "delta = 900719925474099 / 9007199254740992"
  define u :: real where "u = 1 / 2 ^ 53"
  define r where "r = real i"
  define T where "T = r * (u / 5)"
  define z where "z = r * delta"
  have u: "0 < u" "u < 1 / 16" by (simp_all add: u_def)
  have dl: "delta = 1 / 10 - u / 5"
    by (simp add: delta_def u_def)
  have i: "2 \<le> r" "r \<le> 20"
    using assms by (simp_all add: r_def)
  have p: "z = r / 10 - T"
    by (simp add: z_def T_def dl algebra_simps)
  have "2 * (u / 5) \<le> r * (u / 5)" "r * (u / 5) \<le> 20 * (u / 5)"
    using i u by (simp_all add: mult_right_mono)
  then have m1: "0 < T" "T \<le> 4 * u"
    using u by (simp_all add: T_def)
  have "\<bar>z\<bar> < 2"
    using p m1 i u by linarith
  then obtain y where y: "fl z = Finite y" "\<bar>y - z\<bar> \<le> 1 / 2 ^ 53"
    using fl_below_2 by blast
  have y': "\<bar>y - z\<bar> \<le> u"
    using y(2) by (simp add: u_def)
  have "\<bar>- 1 + y\<bar> < 2"
    using y' p m1 i u by linarith
  then obtain x where x: "fl (- 1 + y) = Finite x" "\<bar>x - (- 1 + y)\<bar> \<le> 1 / 2 ^ 53"
    using fl_below_2 by blast
  have x': "\<bar>x - (- 1 + y)\<bar> \<le> u"
    using x(2) by (simp add: u_def)
  have "\<bar>x - (- 1 + r / 10)\<bar> \<le> 6 * u"
    using x' y' p m1 by linarith
  also have "\<dots> \<le> 1 / 2 ^ 50"
    by (simp add: u_def)
  finally have "\<bar>x - (- 1 + real i / 10)\<bar> \<le> 1 / 2 ^ 50"
    by (simp add: r_def)
  moreover have "np_add (Finite (- 1)) (np_mul (Finite (real i)) (Finite delta)) = Finite x"
    using y(1) x(1) by (simp add: z_def r_def)
  ultimately show ?thesis
    unfolding delta_def by blast
qed

lemma grid20_nth:
  assumes "2 \<le> i" and "i < 21"
  shows "grid20 ! i = np_add (Finite (- 1))
        (np_mul (Finite (real i)) (Finite (900719925474099 / 9007199254740992)))"
proof -
  define f where "f = (\<lambda>i. np_add (Finite (- 1))
        (np_mul (Finite (real i)) (Finite (900719925474099 / 9007199254740992))))"
  define a where "a = [Finite (- 1), Finite (- (8106479329266893 / 9007199254740992))]"
  have la: "length a = 2" by (simp add: a_def)
  have g: "grid20 = take 21 (a @ map f [2..<21])"
    by (simp only: grid20_def a_def f_def)
  have "grid20 ! i = (a @ map f [2..<21]) ! i"
    unfolding g using assms(2) by (rule nth_take)
  also have "\<dots> = map f [2..<21] ! (i - 2)"
    using assms(1) la by (simp add: nth_append del: upt_Suc upt_rec_numeral)
  also have "\<dots> = f ([2..<21] ! (i - 2))"
    using assms by (intro nth_map) (simp del: upt_Suc upt_rec_numeral)
  also have "[2..<21] ! (i - 2) = 2 + (i - 2)"
    using assms by (intro nth_upt) simp
  also have "2 + (i - 2) = i"
    using assms(1) by simp
  finally show ?thesis
    by (simp only: f_def)
qed

lemma grid20_points:
  assumes "i < 21"
  shows "\<exists>x. grid20 ! i = Finite x \<and> \<bar>x - (- 1 + real i / 10)\<bar> \<le> 1 / 2 ^ 50"
proof -
  consider "i = 0" | "i = 1" | "2 \<le> i"
    by linarith
  then show ?thesis
  proof cases
    case 1
    then show ?thesis by (simp add: grid20_def del: upt_Suc upt_rec_numeral)
  next
    case 2
    have "\<bar>- (8106479329266893 / 9007199254740992) - (- 1 + 1 / 10)\<bar> \<le> (1 / 2 ^ 50 :: real)"
      by simp
    with 2 show ?thesis by (simp add: grid20_def del: upt_Suc upt_rec_numeral)
  next
    case 3
    have "i \<le> 20" using assms by simp
    then show ?thesis
      using grid20_later[OF 3] grid20_nth[OF 3 assms] by simp
  qed
qed

lemma length_grid20: "length grid20 = 21"
  by (simp add: grid20_def del: upt_Suc upt_rec_numeral)

lemma epsset_20_points:
  assumes lt: "i < 21"
  shows "\<exists>p. map np_power10 grid20 ! i = Finite p
           \<and> \<bar>p - 10 powr (- 1 + real i / 10)\<bar> \<le> 1 / 10 ^ 12"
proof -
  obtain x where x: "grid20 ! i = Finite x" "\<bar>x - (- 1 + real i / 10)\<bar> \<le> 1 / 2 ^ 50"
    using grid20_points[OF lt] by blast
  have "- 1 + real i / 10 \<le> 1"
    using lt by simp
  then have "\<exists>p. np_power10 (Finite x) = Finite p \<and> \<bar>p - 10 powr (- 1 + real i / 10)\<bar> \<le> 1 / 10 ^ 12"
    using x(2) by (intro np_power10_near)
  moreover have "map np_power10 grid20 ! i = np_power10 (grid20 ! i)"
    using lt by (simp add: length_grid20)
  ultimately show ?thesis
    using x(1) by simp
qed



section \<open>The recorded error of a draw\<close>

lemma simulate_rows:
  assumes "simulate epsmin epsmax epscnt sensitivity numrecs laplace = Inr df" and "r \<in> set df"
  shows "df_L1error r = np_abs (df_noise r)"
proof -
  from assms(1) obtain epsilon where
    df: "df = map (\<lambda>(k, e).
            let noise = laplace k (np_div (Finite sensitivity) e) in
            \<lparr>df_epsilon = e, df_sensitivity = sensitivity,
             df_scale = np_div (Finite sensitivity) e,
             df_noise = noise, df_L1error = np_abs noise\<rparr>)
          (zip [0..<length epsilon] epsilon)"
    by (auto simp: simulate_def bind_err_def Let_def split: sum.splits if_splits)
  with assms(2) show ?thesis
    by (auto simp: Let_def)
qed

text \<open>
  Every point of the notebook's grid is a finite number above zero, so with a
  sensitivity above zero no scale is negative and the generator accepts every row.
\<close>

lemma epsset_20_positive:
  assumes "e \<in> set (map np_power10 grid20)"
  shows "\<exists>p. e = Finite p \<and> 0 < p"
proof -
  from assms obtain i where i: "i < 21" and e: "e = map np_power10 grid20 ! i"
    by (metis in_set_conv_nth length_map length_grid20)
  obtain p where p: "map np_power10 grid20 ! i = Finite p"
      "\<bar>p - 10 powr (- 1 + real i / 10)\<bar> \<le> 1 / 10 ^ 12"
    using epsset_20_points[OF i] by blast
  have "10 powr (- 1) \<le> (10 powr (- 1 + real i / 10) :: real)"
    by (intro powr_mono) simp_all
  then have "1 / 10 \<le> (10 powr (- 1 + real i / 10) :: real)"
    by (simp add: powr_minus_divide)
  moreover have "(1 / 10 ^ 12 :: real) < 1 / 10"
    by simp
  ultimately have "0 < p"
    using p(2) by linarith
  with e p(1) show ?thesis
    by simp
qed

lemma scale_not_negative:
  assumes "0 < sensitivity" and "0 < p"
  shows "\<not> np_negative (np_div (Finite sensitivity) (Finite p))"
proof -
  have "0 \<le> sensitivity / p"
    using assms by simp
  from fl_nonneg[OF this] show ?thesis
    using assms(2) by auto
qed

lemma simulate_notebook_returns:
  assumes "0 < sensitivity" and "0 \<le> numrecs"
  shows "\<exists>df. simulate float_0_1 10 20 sensitivity numrecs laplace = Inr df
           \<and> length df = 21 * nat numrecs"
proof -
  define es where "es = map np_power10 grid20"
  define epsilon where "epsilon = concat (map (replicate (nat numrecs)) es)"
  have e: "epsset float_0_1 10 20 = Inr es"
    unfolding es_def by (rule epsset_20)
  have r: "repeat es numrecs = Inr epsilon"
    using assms(2) by (simp add: repeat_def epsilon_def)
  have "\<not> np_negative (np_div (Finite sensitivity) x)" if "x \<in> set epsilon" for x
  proof -
    from that have "x \<in> set es"
      by (auto simp: epsilon_def)
    then obtain p where "x = Finite p" "0 < p"
      unfolding es_def using epsset_20_positive by blast
    then show ?thesis
      using scale_not_negative[OF assms(1)] by simp
  qed
  then have ok: "\<not> list_ex np_negative (map (\<lambda>e. np_div (Finite sensitivity) e) epsilon)"
    by (simp add: list_ex_iff)
  have "length es = 21"
    by (simp add: es_def length_grid20)
  then have len: "length epsilon = 21 * nat numrecs"
    by (simp add: epsilon_def length_concat comp_def sum_list_triv)
  show ?thesis
    using e r ok len by (simp add: simulate_def bind_err_def Let_def)
qed

text \<open>
  C9. In every row of the simulation's data the recorded L1 error is the absolute
  value of the row's noise; for a finite noise this is \<open>|true - (true + noise)|\<close> for
  every true value, so no data is needed. With the notebook's grid (\<open>epsmin = 0.1\<close>,
  \<open>epsmax = 10.\<close>, \<open>epscnt = 20\<close>), a sensitivity above zero and a number of draws that is
  not negative, the simulation returns, with \<open>21 * numrecs\<close> rows.
\<close>

theorem L1error_is_abs_noise:
  "(simulate epsmin epsmax epscnt sensitivity numrecs laplace = Inr df \<longrightarrow>
      (\<forall>r\<in>set df. df_L1error r = np_abs (df_noise r)
         \<and> (\<forall>x. df_noise r = Finite x \<longrightarrow>
               df_L1error r = Finite \<bar>x\<bar>
             \<and> (\<forall>true_value. \<bar>true_value - (true_value + x)\<bar> = \<bar>x\<bar>))))
   \<and> (0 < sensitivity \<and> 0 \<le> numrecs \<longrightarrow>
      (\<exists>df'. simulate float_0_1 10 20 sensitivity numrecs laplace = Inr df'
         \<and> length df' = 21 * nat numrecs))"
proof (intro conjI impI ballI allI)
  fix r
  assume "simulate epsmin epsmax epscnt sensitivity numrecs laplace = Inr df" and "r \<in> set df"
  then show a: "df_L1error r = np_abs (df_noise r)"
    by (rule simulate_rows)
  show "df_L1error r = Finite \<bar>x\<bar>" if "df_noise r = Finite x" for x
    using a that by simp
  show "\<bar>true_value - (true_value + x)\<bar> = \<bar>x\<bar>" for true_value x :: real
    by simp
next
  assume "0 < sensitivity \<and> 0 \<le> numrecs"
  then show "\<exists>df'. simulate float_0_1 10 20 sensitivity numrecs laplace = Inr df'
         \<and> length df' = 21 * nat numrecs"
    using simulate_notebook_returns by blast
qed

lemma fl_10: "fl 10 = Finite 10"
  by (subst fl_scaled[of 49]) (simp_all add: np_round_def)

lemma fl_tenth: "fl (1 / 10) = Finite float_0_1"
  unfolding float_0_1_def
  by (subst fl_scaled[of 56]) (simp_all add: np_round_def Let_def)

lemma epsset_1_10_1: "epsset 1 10 1 = Inr [Finite 1, Finite 10]"
  by (simp add: epsset_def arange_def np_sub_def bind_err_def Let_def
      fl_zero fl_one fl_2 fl_10)

theorem L1error_is_abs_noise_witness:
  "simulate 1 10 1 1 1 (\<lambda>k b. np_neg b) =
     Inr [\<lparr>df_epsilon = Finite 1, df_sensitivity = 1, df_scale = Finite 1,
           df_noise = Finite (- 1), df_L1error = Finite 1\<rparr>,
          \<lparr>df_epsilon = Finite 10, df_sensitivity = 1, df_scale = Finite float_0_1,
           df_noise = Finite (- float_0_1), df_L1error = Finite float_0_1\<rparr>]
   \<and> (\<exists>df'. simulate float_0_1 10 20 1 1000 (\<lambda>k b. b) = Inr df' \<and> length df' = 21000)"
proof -
  have p: "\<bar>float_0_1\<bar> = float_0_1"
    by (simp add: float_0_1_def)
  have n: "\<not> float_0_1 < 0"
    by (simp add: float_0_1_def)
  have s: "simulate 1 10 1 1 1 (\<lambda>k b. np_neg b) =
     Inr [\<lparr>df_epsilon = Finite 1, df_sensitivity = 1, df_scale = Finite 1,
           df_noise = Finite (- 1), df_L1error = Finite 1\<rparr>,
          \<lparr>df_epsilon = Finite 10, df_sensitivity = 1, df_scale = Finite float_0_1,
           df_noise = Finite (- float_0_1), df_L1error = Finite float_0_1\<rparr>]"
    by (simp add: simulate_def epsset_1_10_1 bind_err_def repeat_def Let_def fl_one fl_tenth p n)
  have t: "\<exists>df'. simulate float_0_1 10 20 1 1000 (\<lambda>k b. b) = Inr df' \<and> length df' = 21000"
    using L1error_is_abs_noise[THEN conjunct2, of 1 1000 "\<lambda>k b. b"] by simp
  from L1error_is_abs_noise[of 1 10 1 1 1 "\<lambda>k b. np_neg b"] s t show ?thesis
    by simp
qed

section \<open>Clamping and the error\<close>

text \<open>
  A sum inside the \<open>int64\<close> range does not wrap, and the absolute value of one cell of
  the noise is at most the sum of the absolute values of all cells.
\<close>

lemma wrap64_id: "- (2 ^ 63) \<le> z \<Longrightarrow> z < 2 ^ 63 \<Longrightarrow> wrap64 z = z"
  by (simp add: wrap64_def)

lemma abs_le_row_sum: "m \<in> set row \<Longrightarrow> \<bar>m\<bar> \<le> sum_list (map abs row)"
  for m :: int
proof (induction row)
  case Nil
  then show ?case by simp
next
  case (Cons x xs)
  have "0 \<le> sum_list (map abs xs)"
    by (rule sum_list_nonneg) auto
  with Cons show ?case
    by auto
qed

lemma abs_le_total:
  "row \<in> set n \<Longrightarrow> m \<in> set row \<Longrightarrow> \<bar>m\<bar> \<le> sum_list (map (\<lambda>row. sum_list (map abs row)) n)"
  for m :: int
proof (induction n)
  case Nil
  then show ?case by simp
next
  case (Cons r rs)
  have a: "0 \<le> sum_list (map abs r)"
    by (rule sum_list_nonneg) auto
  have "0 \<le> sum_list (map abs row)" for row :: "int list"
    by (rule sum_list_nonneg) auto
  then have b: "0 \<le> sum_list (map (\<lambda>row. sum_list (map abs row)) rs)"
    by (intro sum_list_nonneg) auto
  show ?case
  proof (cases "row = r")
    case True
    then have "\<bar>m\<bar> \<le> sum_list (map abs r)"
      using Cons.prems(2) by (simp add: abs_le_row_sum)
    with b show ?thesis by simp
  next
    case False
    then have "\<bar>m\<bar> \<le> sum_list (map (\<lambda>row. sum_list (map abs row)) rs)"
      using Cons by simp
    with a show ?thesis by simp
  qed
qed

lemma frame_add_no_wrap:
  assumes t: "\<forall>row\<in>set t. \<forall>c\<in>set row. 0 \<le> c \<and> c < 2 ^ 62"
    and n: "sum_list (map (\<lambda>row. sum_list (map abs row)) n) < 2 ^ 62"
  shows "map2 (map2 (\<lambda>x y. wrap64 (x + y))) t n = map2 (map2 (\<lambda>x y. x + y)) t n"
proof -
  have cell: "wrap64 (x + y) = x + y"
    if "r \<in> set t" "x \<in> set r" "m \<in> set n" "y \<in> set m" for r m x y
  proof -
    have "0 \<le> x" "x < 2 ^ 62"
      using t that(1,2) by auto
    moreover have "\<bar>y\<bar> < 2 ^ 62"
      using abs_le_total[OF that(3,4)] n by simp
    ultimately show ?thesis
      by (intro wrap64_id) simp_all
  qed
  have row: "map2 (\<lambda>x y. wrap64 (x + y)) r m = map2 (\<lambda>x y. x + y) r m"
    if rm: "r \<in> set t" "m \<in> set n" for r m
  proof (intro map_cong refl)
    fix p
    assume "p \<in> set (zip r m)"
    then have "fst p \<in> set r" "snd p \<in> set m"
      by (auto intro: set_zip_leftD[of "fst p" "snd p"] set_zip_rightD[of "fst p" "snd p"])
    then have "wrap64 (fst p + snd p) = fst p + snd p"
      using cell rm by blast
    then show "(case p of (x, y) \<Rightarrow> wrap64 (x + y)) = (case p of (x, y) \<Rightarrow> x + y)"
      by (simp add: case_prod_beta)
  qed
  show ?thesis
  proof (intro map_cong refl)
    fix p
    assume "p \<in> set (zip t n)"
    then have "fst p \<in> set t" "snd p \<in> set n"
      by (auto intro: set_zip_leftD[of "fst p" "snd p"] set_zip_rightD[of "fst p" "snd p"])
    then have "map2 (\<lambda>x y. wrap64 (x + y)) (fst p) (snd p) = map2 (\<lambda>x y. x + y) (fst p) (snd p)"
      by (rule row)
    then show "(case p of (x, y) \<Rightarrow> map2 (\<lambda>x y. wrap64 (x + y)) x y)
        = (case p of (x, y) \<Rightarrow> map2 (\<lambda>x y. x + y) x y)"
      by (simp add: case_prod_beta)
  qed
qed

lemma clamp_cell_error:
  "0 \<le> t \<Longrightarrow> \<bar>(if t + n < 0 then 0 else t + n) - t\<bar> \<le> \<bar>n\<bar>"
  for t n :: int
  by auto

lemma row_error_le:
  "length r = length m \<Longrightarrow> \<forall>c\<in>set r. 0 \<le> c \<Longrightarrow>
   sum_list (map2 (\<lambda>x y. \<bar>x - y\<bar>) (map (\<lambda>x. if x < 0 then 0 else x) (map2 (\<lambda>x y. x + y) r m)) r)
     \<le> sum_list (map abs m)"
  for r m :: "int list"
proof (induction r m rule: list_induct2)
  case Nil
  show ?case by simp
next
  case (Cons x xs y ys)
  have "\<bar>(if x + y < 0 then 0 else x + y) - x\<bar> \<le> \<bar>y\<bar>"
    using Cons.prems by (intro clamp_cell_error) simp
  moreover have "sum_list (map2 (\<lambda>x y. \<bar>x - y\<bar>)
      (map (\<lambda>x. if x < 0 then 0 else x) (map2 (\<lambda>x y. x + y) xs ys)) xs) \<le> sum_list (map abs ys)"
    using Cons.IH Cons.prems by simp
  ultimately show ?case by simp
qed

lemma frame_error_le:
  "same_shape t n \<Longrightarrow> \<forall>row\<in>set t. \<forall>c\<in>set row. 0 \<le> c \<Longrightarrow>
   sum_list (map sum_list (map2 (map2 (\<lambda>x y. \<bar>x - y\<bar>))
       (clamp_negative (map2 (map2 (\<lambda>x y. x + y)) t n)) t))
     \<le> sum_list (map (\<lambda>row. sum_list (map abs row)) n)"
  for t n :: "int frame"
proof (induction t arbitrary: n)
  case Nil
  then show ?case by (simp add: same_shape_def clamp_negative_def)
next
  case (Cons r t)
  from Cons.prems(1) obtain m n' where n: "n = m # n'" and len: "length r = length m"
    and sh: "same_shape t n'"
    by (cases n) (auto simp: same_shape_def)
  have "sum_list (map2 (\<lambda>x y. \<bar>x - y\<bar>)
      (map (\<lambda>x. if x < 0 then 0 else x) (map2 (\<lambda>x y. x + y) r m)) r) \<le> sum_list (map abs m)"
    using len Cons.prems(2) by (intro row_error_le) simp_all
  moreover have "sum_list (map sum_list (map2 (map2 (\<lambda>x y. \<bar>x - y\<bar>))
       (clamp_negative (map2 (map2 (\<lambda>x y. x + y)) t n')) t))
     \<le> sum_list (map (\<lambda>row. sum_list (map abs row)) n')"
    using Cons.IH[OF sh] Cons.prems(2) by simp
  ultimately show ?case
    unfolding n by (simp add: clamp_negative_def)
qed

lemma row_clamp_error_le:
  "length a = length r \<Longrightarrow> \<forall>c\<in>set r. 0 \<le> c \<Longrightarrow>
   sum_list (map2 (\<lambda>x y. \<bar>x - y\<bar>) (map (\<lambda>x. if x < 0 then 0 else x) a) r)
     \<le> sum_list (map2 (\<lambda>x y. \<bar>x - y\<bar>) a r)"
  for a r :: "int list"
proof (induction a r rule: list_induct2)
  case Nil
  show ?case by simp
next
  case (Cons x xs y ys)
  have "\<bar>(if x < 0 then 0 else x) - y\<bar> \<le> \<bar>x - y\<bar>"
    using Cons.prems by auto
  moreover have "sum_list (map2 (\<lambda>x y. \<bar>x - y\<bar>) (map (\<lambda>x. if x < 0 then 0 else x) xs) ys)
      \<le> sum_list (map2 (\<lambda>x y. \<bar>x - y\<bar>) xs ys)"
    using Cons.IH Cons.prems by simp
  ultimately show ?case by simp
qed

lemma frame_clamp_error_le:
  "same_shape a t \<Longrightarrow> \<forall>row\<in>set t. \<forall>c\<in>set row. 0 \<le> c \<Longrightarrow>
   sum_list (map sum_list (map2 (map2 (\<lambda>x y. \<bar>x - y\<bar>)) (clamp_negative a) t))
     \<le> sum_list (map sum_list (map2 (map2 (\<lambda>x y. \<bar>x - y\<bar>)) a t))"
  for a t :: "int frame"
proof (induction a arbitrary: t)
  case Nil
  then show ?case by (simp add: same_shape_def clamp_negative_def)
next
  case (Cons r a)
  from Cons.prems(1) obtain m t' where t: "t = m # t'" and len: "length r = length m"
    and sh: "same_shape a t'"
    by (cases t) (auto simp: same_shape_def)
  have "sum_list (map2 (\<lambda>x y. \<bar>x - y\<bar>) (map (\<lambda>x. if x < 0 then 0 else x) r) m)
      \<le> sum_list (map2 (\<lambda>x y. \<bar>x - y\<bar>) r m)"
    using len Cons.prems(2) unfolding t by (intro row_clamp_error_le) simp_all
  moreover have "sum_list (map sum_list (map2 (map2 (\<lambda>x y. \<bar>x - y\<bar>)) (clamp_negative a) t'))
     \<le> sum_list (map sum_list (map2 (map2 (\<lambda>x y. \<bar>x - y\<bar>)) a t'))"
    using Cons.IH[OF sh] Cons.prems(2) unfolding t by simp
  ultimately show ?case
    unfolding t by (simp add: clamp_negative_def)
qed

lemma clamp_cell_max:
  "i < length a \<Longrightarrow> j < length (a ! i) \<Longrightarrow> clamp_negative a ! i ! j = max (a ! i ! j) 0"
  for a :: "int frame"
  by (simp add: clamp_negative_def max_def)

text \<open>
  C10 as stated says that for every true table with cells of at least 0 and every
  noise, the total L1 error of the published table is at most the sum of the absolute
  values of the noise. In the geometric cell the sum of the true count \<open>2^63 - 1\<close> and
  the noise 1 wraps around to \<open>-2^63\<close>, the published count is 0 and the error is
  \<open>2^63 - 1\<close>, above 1. In the Laplace cells the noisy table is rounded before it is
  clamped: with the true count 1 and the noise 3/5 the published count is 2, and the
  total error 1 is above 3/5.
\<close>

theorem clamping_total_error_counterexample:
  "map_sum id errorsum (geometric_cell [[9223372036854775807]] [[1]]) = Inr 9223372036854775807
   \<and> sum_list (map (\<lambda>row. sum_list (map abs row)) [[1 :: int]]) = 1
   \<and> map_sum id lap_errorsum (laplace_cells [[1]] [[3 / 5]]) = Inr 1
   \<and> sum_list (map (\<lambda>row. sum_list (map abs row)) [[3 / 5 :: real]]) = 3 / 5"
proof -
  have r: "round_astype_int [[8 / 5]] = [[2]]"
    by (simp add: round_astype_int_def np_round_def astype_int_def Let_def)
  have g: "map_sum id errorsum (geometric_cell [[9223372036854775807]] [[1]]) = Inr 9223372036854775807"
    by (simp add: geometric_cell_eq same_shape_def Let_def clamp_negative_def sum_sum_rows wrap64_def)
  have l: "map_sum id lap_errorsum (laplace_cells [[1]] [[3 / 5]]) = Inr 1"
    using r by (simp add: laplace_cells_eq same_shape_def Let_def clamp_negative_def sum_sum_rows)
  show ?thesis
    using g l by simp
qed

text \<open>
  C10, amended. Take a true table whose cells are at least 0 and below \<open>2^62\<close>. For
  integer noise of the same shape whose absolute values add up to less than \<open>2^62\<close>, the
  published table of the geometric cell is the raw noisy table \<open>true + noise\<close> with its
  negative cells set to zero; in no cell is the absolute error of the published table
  larger than that of the raw noisy table, and the total L1 error is at most the sum of
  the absolute values of the noise. In the Laplace cells, for counts and noise below
  \<open>2^53\<close> in absolute value, the clamp is applied to the rounded table: it increases the
  absolute error of no cell over that of the rounded table, and the total L1 error is at
  most that of the rounded table (which can be above the sum of the absolute values of
  the noise).
\<close>

theorem clamping_never_increases_error:
  assumes range: "\<forall>row\<in>set t. \<forall>c\<in>set row. 0 \<le> c \<and> c < 2 ^ 62"
  shows "(same_shape t n \<and> sum_list (map (\<lambda>row. sum_list (map abs row)) n) < 2 ^ 62 \<longrightarrow>
          (\<exists>raw st pub err. frame_add t n = Inr raw \<and> geometric_cell t n = Inr st
             \<and> frame_of st noisytabpost = Some pub \<and> pub = clamp_negative raw
             \<and> frame_of st errortab = Some err
             \<and> (\<forall>i<length t. \<forall>j<length (t ! i).
                   raw ! i ! j = t ! i ! j + n ! i ! j
                 \<and> pub ! i ! j = max (raw ! i ! j) 0
                 \<and> err ! i ! j = \<bar>pub ! i ! j - t ! i ! j\<bar>
                 \<and> \<bar>pub ! i ! j - t ! i ! j\<bar> \<le> \<bar>raw ! i ! j - t ! i ! j\<bar>)
             \<and> errorsum st = sum_list (map sum_list err)
             \<and> errorsum st \<le> sum_list (map (\<lambda>row. sum_list (map abs row)) n)))
       \<and> (same_shape t nf \<and> (\<forall>row\<in>set t. \<forall>c\<in>set row. c < 2 ^ 53)
            \<and> (\<forall>row\<in>set nf. \<forall>x\<in>set row. \<bar>x\<bar> < 2 ^ 53) \<longrightarrow>
          (\<exists>raw st rounded pub. frame_add_float t nf = Inr raw \<and> laplace_cells t nf = Inr st
             \<and> rounded = round_astype_int raw
             \<and> lap_int_frame_of st lap_noisytabpost = Some pub \<and> pub = clamp_negative rounded
             \<and> (\<forall>i<length t. \<forall>j<length (t ! i).
                   pub ! i ! j = max (rounded ! i ! j) 0
                 \<and> \<bar>pub ! i ! j - t ! i ! j\<bar> \<le> \<bar>rounded ! i ! j - t ! i ! j\<bar>)
             \<and> lap_errorsum st
                 \<le> sum_list (map sum_list (map2 (map2 (\<lambda>x y. \<bar>x - y\<bar>)) rounded t))))"
proof (intro conjI impI)
  have nonneg: "\<forall>row\<in>set t. \<forall>c\<in>set row. 0 \<le> c"
    using range by blast
  assume "same_shape t n \<and> sum_list (map (\<lambda>row. sum_list (map abs row)) n) < 2 ^ 62"
  then have shape: "same_shape t n"
    and small: "sum_list (map (\<lambda>row. sum_list (map abs row)) n) < 2 ^ 62"
    by simp_all
  define raw where "raw = map2 (map2 (\<lambda>x y. wrap64 (x + y))) t n"
  define pub where "pub = clamp_negative raw"
  define err where "err = map2 (map2 (\<lambda>x y. \<bar>x - y\<bar>)) pub t"
  have nowrap: "raw = map2 (map2 (\<lambda>x y. x + y)) t n"
    unfolding raw_def using range small by (rule frame_add_no_wrap)
  have sr: "same_shape raw t"
    unfolding raw_def using shape by (rule same_shape_map2_left)
  have sp: "same_shape pub t"
    unfolding pub_def using sr by (simp add: same_shape_clamp)
  have a: "frame_add t n = Inr raw"
    using shape by (simp add: frame_add_def frame_map2_def raw_def)
  have g: "\<exists>st. geometric_cell t n = Inr st \<and> frame_of st noisytabpost = Some pub
      \<and> frame_of st errortab = Some err \<and> errorsum st = sum_sum err"
    using shape by (simp add: geometric_cell_eq Let_def frame_of_def raw_def pub_def err_def)
  have cells: "raw ! i ! j = t ! i ! j + n ! i ! j
      \<and> pub ! i ! j = max (raw ! i ! j) 0
      \<and> err ! i ! j = \<bar>pub ! i ! j - t ! i ! j\<bar>
      \<and> \<bar>pub ! i ! j - t ! i ! j\<bar> \<le> \<bar>raw ! i ! j - t ! i ! j\<bar>"
    if i: "i < length t" and j: "j < length (t ! i)" for i j
  proof -
    have ir: "i < length raw" "j < length (raw ! i)"
      using sr i j same_shape_length[of raw t] same_shape_nth[of raw t i] by simp_all
    have ip: "i < length pub" "j < length (pub ! i)"
      using sp i j same_shape_length[of pub t] same_shape_nth[of pub t i] by simp_all
    have r: "raw ! i ! j = t ! i ! j + n ! i ! j"
      unfolding nowrap using shape i j by (rule nth_map2_map2)
    have p: "pub ! i ! j = max (raw ! i ! j) 0"
      unfolding pub_def using ir by (rule clamp_cell_max)
    have e: "err ! i ! j = \<bar>pub ! i ! j - t ! i ! j\<bar>"
      unfolding err_def using sp ip by (rule nth_map2_map2)
    have "t ! i \<in> set t" and "t ! i ! j \<in> set (t ! i)"
      using i j by simp_all
    then have "0 \<le> t ! i ! j"
      using nonneg by blast
    then have "\<bar>pub ! i ! j - t ! i ! j\<bar> \<le> \<bar>raw ! i ! j - t ! i ! j\<bar>"
      using p by (simp add: max_def)
    with r p e show ?thesis by simp
  qed
  have total: "sum_sum err \<le> sum_list (map (\<lambda>row. sum_list (map abs row)) n)"
    unfolding sum_sum_rows err_def pub_def nowrap using shape nonneg by (rule frame_error_le)
  from g obtain st where st: "geometric_cell t n = Inr st" "frame_of st noisytabpost = Some pub"
      "frame_of st errortab = Some err" "errorsum st = sum_sum err"
    by blast
  have all: "\<forall>i<length t. \<forall>j<length (t ! i).
      raw ! i ! j = t ! i ! j + n ! i ! j
      \<and> pub ! i ! j = max (raw ! i ! j) 0
      \<and> err ! i ! j = \<bar>pub ! i ! j - t ! i ! j\<bar>
      \<and> \<bar>pub ! i ! j - t ! i ! j\<bar> \<le> \<bar>raw ! i ! j - t ! i ! j\<bar>"
    using cells by blast
  have e1: "errorsum st = sum_list (map sum_list err)"
    using st(4) by (simp add: sum_sum_rows)
  have e2: "errorsum st \<le> sum_list (map (\<lambda>row. sum_list (map abs row)) n)"
    using st(4) total by simp
  show "\<exists>raw st pub err. frame_add t n = Inr raw \<and> geometric_cell t n = Inr st
       \<and> frame_of st noisytabpost = Some pub \<and> pub = clamp_negative raw
       \<and> frame_of st errortab = Some err
       \<and> (\<forall>i<length t. \<forall>j<length (t ! i).
             raw ! i ! j = t ! i ! j + n ! i ! j
           \<and> pub ! i ! j = max (raw ! i ! j) 0
           \<and> err ! i ! j = \<bar>pub ! i ! j - t ! i ! j\<bar>
           \<and> \<bar>pub ! i ! j - t ! i ! j\<bar> \<le> \<bar>raw ! i ! j - t ! i ! j\<bar>)
       \<and> errorsum st = sum_list (map sum_list err)
       \<and> errorsum st \<le> sum_list (map (\<lambda>row. sum_list (map abs row)) n)"
    using a st(1) st(2) pub_def st(3) all e1 e2 by blast
next
  have nonneg: "\<forall>row\<in>set t. \<forall>c\<in>set row. 0 \<le> c"
    using range by blast
  assume "same_shape t nf \<and> (\<forall>row\<in>set t. \<forall>c\<in>set row. c < 2 ^ 53)
            \<and> (\<forall>row\<in>set nf. \<forall>x\<in>set row. \<bar>x\<bar> < 2 ^ 53)"
  then have shape: "same_shape t nf"
    by simp
  define raw where "raw = map2 (map2 (\<lambda>x y. real_of_int x + y)) t nf"
  define rounded where "rounded = round_astype_int raw"
  define pub where "pub = clamp_negative rounded"
  define err where "err = map2 (map2 (\<lambda>x y. \<bar>x - y\<bar>)) pub t"
  have sr: "same_shape rounded t"
    unfolding rounded_def raw_def using shape
    by (simp add: same_shape_round same_shape_map2_left)
  have a: "frame_add_float t nf = Inr raw"
    using shape by (simp add: frame_add_float_def frame_map2_def raw_def)
  have l: "\<exists>st. laplace_cells t nf = Inr st \<and> lap_int_frame_of st lap_noisytabpost = Some pub
      \<and> lap_errorsum st = sum_sum err"
    using shape
    by (simp add: laplace_cells_eq Let_def lap_int_frame_of_def raw_def rounded_def pub_def err_def)
  have cells: "pub ! i ! j = max (rounded ! i ! j) 0
      \<and> \<bar>pub ! i ! j - t ! i ! j\<bar> \<le> \<bar>rounded ! i ! j - t ! i ! j\<bar>"
    if i: "i < length t" and j: "j < length (t ! i)" for i j
  proof -
    have ir: "i < length rounded" "j < length (rounded ! i)"
      using sr i j same_shape_length[of rounded t] same_shape_nth[of rounded t i] by simp_all
    have p: "pub ! i ! j = max (rounded ! i ! j) 0"
      unfolding pub_def using ir by (rule clamp_cell_max)
    have "t ! i \<in> set t" and "t ! i ! j \<in> set (t ! i)"
      using i j by simp_all
    then have "0 \<le> t ! i ! j"
      using nonneg by blast
    then have "\<bar>pub ! i ! j - t ! i ! j\<bar> \<le> \<bar>rounded ! i ! j - t ! i ! j\<bar>"
      using p by (simp add: max_def)
    with p show ?thesis by simp
  qed
  then have all: "\<forall>i<length t. \<forall>j<length (t ! i).
      pub ! i ! j = max (rounded ! i ! j) 0
      \<and> \<bar>pub ! i ! j - t ! i ! j\<bar> \<le> \<bar>rounded ! i ! j - t ! i ! j\<bar>"
    by blast
  have total: "sum_sum err \<le> sum_list (map sum_list (map2 (map2 (\<lambda>x y. \<bar>x - y\<bar>)) rounded t))"
    unfolding sum_sum_rows err_def pub_def using sr nonneg by (rule frame_clamp_error_le)
  from l obtain st where st: "laplace_cells t nf = Inr st"
      "lap_int_frame_of st lap_noisytabpost = Some pub" "lap_errorsum st = sum_sum err"
    by blast
  have e2: "lap_errorsum st
      \<le> sum_list (map sum_list (map2 (map2 (\<lambda>x y. \<bar>x - y\<bar>)) rounded t))"
    using st(3) total by simp
  show "\<exists>raw st rounded pub. frame_add_float t nf = Inr raw \<and> laplace_cells t nf = Inr st
       \<and> rounded = round_astype_int raw
       \<and> lap_int_frame_of st lap_noisytabpost = Some pub \<and> pub = clamp_negative rounded
       \<and> (\<forall>i<length t. \<forall>j<length (t ! i).
             pub ! i ! j = max (rounded ! i ! j) 0
           \<and> \<bar>pub ! i ! j - t ! i ! j\<bar> \<le> \<bar>rounded ! i ! j - t ! i ! j\<bar>)
       \<and> lap_errorsum st
           \<le> sum_list (map sum_list (map2 (map2 (\<lambda>x y. \<bar>x - y\<bar>)) rounded t))"
    using a st(1) st(2) rounded_def pub_def all e2 by blast
qed

theorem clamping_never_increases_error_witness:
  "same_shape [[0, 5 :: int]] [[- 3, 2 :: int]]
   \<and> frame_add [[0, 5]] [[- 3, 2]] = Inr [[- 3, 7]]
   \<and> map_sum id (\<lambda>st. (frame_of st noisytabpost, frame_of st errortab, errorsum st))
        (geometric_cell [[0, 5]] [[- 3, 2]]) = Inr (Some [[0, 7]], Some [[0, 2]], 2)
   \<and> (2 :: int) \<le> sum_list (map (\<lambda>row. sum_list (map abs row)) [[- 3, 2]])
   \<and> sum_list (map (\<lambda>row. sum_list (map abs row)) [[- 3, 2 :: int]]) < 2 ^ 62
   \<and> same_shape [[0, 5 :: int]] [[- 3 / 2, 1 / 4 :: real]]
   \<and> map_sum id (\<lambda>st. (lap_int_frame_of st lap_noisytabpost, lap_errorsum st))
        (laplace_cells [[0, 5]] [[- 3 / 2, 1 / 4]]) = Inr (Some [[0, 5]], 0)"
proof -
  have s: "same_shape [[0, 5 :: int]] [[- 3, 2 :: int]]"
    by (simp add: same_shape_def)
  have s': "same_shape [[0, 5 :: int]] [[- 3 / 2, 1 / 4 :: real]]"
    by (simp add: same_shape_def)
  have n: "\<forall>row\<in>set [[0, 5 :: int]]. \<forall>c\<in>set row. 0 \<le> c \<and> c < 2 ^ 62"
    by simp
  have r: "round_astype_int [[- 3 / 2, 21 / 4]] = [[- 2, 5]]"
    by (simp add: round_astype_int_def np_round_def astype_int_def Let_def)
  from clamping_never_increases_error[OF n, of "[[- 3, 2]]" "[[- 3 / 2, 1 / 4]]"] s s' r
  show ?thesis
    by (simp add: geometric_cell_eq laplace_cells_eq frame_add_def frame_map2_def Let_def
        frame_of_def lap_int_frame_of_def clamp_negative_def sum_sum_rows wrap64_def)
qed

end
